theory Spec2Isabelle
  imports Complex_Main "HOL-Library.Word"
begin

unbundle bit_operations_syntax

section \<open>Machine types and memory\<close>

text \<open>
  The header \<^verbatim>\<open>GPU/Common/VertexDecoderCommon.h\<close> works on raw pointers into the
  decoded vertex buffer and the index buffer. A pointer is an address, memory is a
  function from addresses to bytes: as in C, a read through a pointer is never bounds
  checked. Multi-byte reads are little-endian (the PSP and every host the header names).
\<close>

type_synonym u8 = "8 word"
type_synonym u16 = "16 word"
type_synonym u32 = "32 word"
type_synonym addr = int
type_synonym memory = "addr \<Rightarrow> u8"

definition read_u8 :: "memory \<Rightarrow> addr \<Rightarrow> u8" where
  "read_u8 mem a = mem a"

definition read_u16 :: "memory \<Rightarrow> addr \<Rightarrow> u16" where
  "read_u16 mem a = word_of_nat (unat (mem a) + 256 * unat (mem (a + 1)))"

definition read_u32 :: "memory \<Rightarrow> addr \<Rightarrow> u32" where
  "read_u32 mem a =
     word_of_nat (unat (mem a) + 256 * unat (mem (a + 1))
                  + 65536 * unat (mem (a + 2)) + 16777216 * unat (mem (a + 3)))"

text \<open>The signed views \<^verbatim>\<open>s8\<close> and \<^verbatim>\<open>s16\<close> of the same bytes, promoted to \<^verbatim>\<open>int\<close>.\<close>

definition read_s8 :: "memory \<Rightarrow> addr \<Rightarrow> int" where
  "read_s8 mem a = sint (read_u8 mem a)"

definition read_s16 :: "memory \<Rightarrow> addr \<Rightarrow> int" where
  "read_s16 mem a = sint (read_u16 mem a)"

text \<open>A buffer laid out in memory: the bytes \<open>bs\<close> stored from address \<open>p\<close> on.\<close>

definition store_bytes :: "addr \<Rightarrow> u8 list \<Rightarrow> memory \<Rightarrow> memory" where
  "store_bytes p bs mem =
     (\<lambda>a. if p \<le> a \<and> a < p + int (length bs) then bs ! nat (a - p) else mem a)"

definition bytes_u16 :: "u16 \<Rightarrow> u8 list" where
  "bytes_u16 w = [word_of_nat (unat w mod 256), word_of_nat (unat w div 256)]"

definition bytes_u32 :: "u32 \<Rightarrow> u8 list" where
  "bytes_u32 w =
     [word_of_nat (unat w mod 256), word_of_nat (unat w div 256 mod 256),
      word_of_nat (unat w div 65536 mod 256), word_of_nat (unat w div 16777216)]"

section \<open>Constants of \<^verbatim>\<open>GPU/ge_constants.h\<close>\<close>

text \<open>
  The header includes \<^verbatim>\<open>GPU/ge_constants.h\<close> for the vertex type bit masks; that
  file is not part of the sources at hand, so the masks are parameters of the model.
\<close>

record ge_constants =
  GE_VTYPE_IDX_MASK :: u32
  GE_VTYPE_IDX_NONE :: u32
  GE_VTYPE_IDX_8BIT :: u32
  GE_VTYPE_IDX_16BIT :: u32
  GE_VTYPE_IDX_32BIT :: u32
  GE_VTYPE_THROUGH :: u32

text \<open>
  The case labels of a \<^verbatim>\<open>switch\<close> are pairwise distinct (the compiler rejects the
  program otherwise), and "none" is a fourth tag.
\<close>

definition idx_tags_distinct :: "ge_constants \<Rightarrow> bool" where
  "idx_tags_distinct gc =
     distinct [GE_VTYPE_IDX_NONE gc, GE_VTYPE_IDX_8BIT gc,
               GE_VTYPE_IDX_16BIT gc, GE_VTYPE_IDX_32BIT gc]"

text \<open>The values the PSP's GE uses: index width in bits 11-12, through mode in bit 23.\<close>

definition psp_constants :: ge_constants where
  "psp_constants =
     \<lparr>GE_VTYPE_IDX_MASK = 0x1800, GE_VTYPE_IDX_NONE = 0, GE_VTYPE_IDX_8BIT = 0x800,
      GE_VTYPE_IDX_16BIT = 0x1000, GE_VTYPE_IDX_32BIT = 0x1800,
      GE_VTYPE_THROUGH = 0x800000\<rparr>"

section \<open>\<^verbatim>\<open>IndexConverter\<close>\<close>

text \<open>
  The union of the four pointers is one address; \<^verbatim>\<open>indexType\<close> is the masked vertex
  type.
\<close>

record IndexConverter =
  indices :: addr
  indexType :: u32

definition IndexConverter_new :: "ge_constants \<Rightarrow> u32 \<Rightarrow> addr \<Rightarrow> IndexConverter" where
  "IndexConverter_new gc vertType p =
     \<lparr>indices = p, indexType = vertType AND GE_VTYPE_IDX_MASK gc\<rparr>"

text \<open>
  \<^verbatim>\<open>convert\<close>: the \<^verbatim>\<open>switch\<close> in source order; \<^verbatim>\<open>indices16[index]\<close> is the
  16-bit value at byte offset \<^verbatim>\<open>2 * index\<close>, widened to \<^verbatim>\<open>u32\<close>.
\<close>

definition convert :: "ge_constants \<Rightarrow> memory \<Rightarrow> IndexConverter \<Rightarrow> u32 \<Rightarrow> u32" where
  "convert gc mem ic index =
     (if indexType ic = GE_VTYPE_IDX_8BIT gc then
        ucast (read_u8 mem (indices ic + int (unat index)))
      else if indexType ic = GE_VTYPE_IDX_16BIT gc then
        ucast (read_u16 mem (indices ic + 2 * int (unat index)))
      else if indexType ic = GE_VTYPE_IDX_32BIT gc then
        read_u32 mem (indices ic + 4 * int (unat index))
      else index)"

text \<open>An index buffer of the given width, written out as bytes.\<close>

definition index_bytes8 :: "u8 list \<Rightarrow> u8 list" where
  "index_bytes8 es = es"

definition index_bytes16 :: "u16 list \<Rightarrow> u8 list" where
  "index_bytes16 es = concat (map bytes_u16 es)"

definition index_bytes32 :: "u32 list \<Rightarrow> u8 list" where
  "index_bytes32 es = concat (map bytes_u32 es)"

section \<open>Single-precision floats\<close>

text \<open>
  A C \<^verbatim>\<open>float\<close> is its IEEE-754 binary32 bit pattern: sign in bit 31, biased exponent
  in bits 23-30, fraction in bits 0-22. Arithmetic is round-to-nearest, ties-to-even on
  the exact result, computed on integers: the magnitude of a finite float is an integer
  multiple \<open>f32_mag\<close> of the smallest subnormal \<open>2\<^sup>-\<^sup>1\<^sup>4\<^sup>9\<close>.
\<close>

type_synonym f32 = "32 word"

text \<open>Number of binary digits of a positive integer.\<close>

function bitlen :: "int \<Rightarrow> nat" where
  "bitlen n = (if n \<le> 0 then 0 else Suc (bitlen (n div 2)))"
  by pat_completeness auto
termination
  by (relation "measure nat") auto

declare bitlen.simps [simp del]

text \<open>The integer nearest to \<open>n / d\<close> (for \<open>0 \<le> n\<close>, \<open>0 < d\<close>), ties to the even one.\<close>

definition round_even_div :: "int \<Rightarrow> int \<Rightarrow> int" where
  "round_even_div n d =
     (let f = n div d; r = n mod d
      in if 2 * r < d then f else if d < 2 * r then f + 1
         else if even f then f else f + 1)"

text \<open>
  The bits (without sign) of the float nearest to \<open>n / d\<close>. With \<open>x = n / d * 2\<^sup>1\<^sup>4\<^sup>9\<close> and
  \<open>k\<close> the number of digits of \<open>x\<close> beyond 24, the unit in the last place is \<open>2\<^sup>k\<close>;
  the rounded significand \<open>r\<close> (at most \<open>2\<^sup>2\<^sup>4\<close>) is added to the exponent field \<open>k\<close>, so
  a carry out of the fraction moves to the next exponent; subnormals have \<open>k = 0\<close>.
  Results beyond the largest finite float are infinity.
\<close>

definition f32_round_bits :: "int \<Rightarrow> int \<Rightarrow> int" where
  "f32_round_bits n d =
     (let k = bitlen (n * 2 ^ 149 div d) - 24;
          b = int k * 2 ^ 23 + round_even_div (n * 2 ^ 149) (d * 2 ^ k)
      in if b < 0x7F800000 then b else 0x7F800000)"

definition f32_signed_bits :: "bool \<Rightarrow> int \<Rightarrow> f32" where
  "f32_signed_bits neg b = word_of_int ((if neg then 2 ^ 31 else 0) + b)"

definition f32_make :: "bool \<Rightarrow> int \<Rightarrow> int \<Rightarrow> f32" where
  "f32_make neg n d = f32_signed_bits neg (f32_round_bits n d)"

definition f32_sign :: "f32 \<Rightarrow> bool" where
  "f32_sign w = (2 ^ 31 \<le> uint w)"

definition f32_abs_bits :: "f32 \<Rightarrow> int" where
  "f32_abs_bits w = uint w mod 2 ^ 31"

definition f32_is_nan :: "f32 \<Rightarrow> bool" where
  "f32_is_nan w = (0x7F800000 < f32_abs_bits w)"

definition f32_is_inf :: "f32 \<Rightarrow> bool" where
  "f32_is_inf w = (f32_abs_bits w = 0x7F800000)"

definition f32_is_zero :: "f32 \<Rightarrow> bool" where
  "f32_is_zero w = (f32_abs_bits w = 0)"

text \<open>The magnitude of a finite float, in units of \<open>2\<^sup>-\<^sup>1\<^sup>4\<^sup>9\<close>.\<close>

definition f32_mag :: "f32 \<Rightarrow> int" where
  "f32_mag w =
     (let b = f32_abs_bits w
      in if b div 2 ^ 23 = 0 then b
         else (2 ^ 23 + b mod 2 ^ 23) * 2 ^ (nat (b div 2 ^ 23) - 1))"

text \<open>The rational value of a finite float.\<close>

definition f32_val :: "f32 \<Rightarrow> rat" where
  "f32_val w = (if f32_sign w then - 1 else 1) * of_int (f32_mag w) / 2 ^ 149"

text \<open>Conversion \<^verbatim>\<open>int\<close> to \<^verbatim>\<open>float\<close>; also the value of an integral literal such as \<^verbatim>\<open>65535.0f\<close>.\<close>

definition f32_of_int :: "int \<Rightarrow> f32" where
  "f32_of_int i = f32_make (i < 0) \<bar>i\<bar> 1"

text \<open>
  Multiplication and division. An invalid operation gives the default quiet NaN, a NaN
  operand is not propagated with its payload: the readers only ever multiply a converted
  integer by a finite constant, and divide only in their constants.
\<close>

definition f32_mul :: "f32 \<Rightarrow> f32 \<Rightarrow> f32" where
  "f32_mul a b =
    (if f32_is_nan a \<or> f32_is_nan b then 0x7FC00000
     else if (f32_is_inf a \<and> f32_is_zero b) \<or> (f32_is_zero a \<and> f32_is_inf b)
       then 0x7FC00000
     else if f32_is_inf a \<or> f32_is_inf b
       then f32_signed_bits (f32_sign a \<noteq> f32_sign b) 0x7F800000
     else f32_make (f32_sign a \<noteq> f32_sign b) (f32_mag a * f32_mag b) (2 ^ 298))"

definition f32_div :: "f32 \<Rightarrow> f32 \<Rightarrow> f32" where
  "f32_div a b =
    (if f32_is_nan a \<or> f32_is_nan b then 0x7FC00000
     else if (f32_is_inf a \<and> f32_is_inf b) \<or> (f32_is_zero a \<and> f32_is_zero b)
       then 0x7FC00000
     else if f32_is_inf a \<or> f32_is_zero b
       then f32_signed_bits (f32_sign a \<noteq> f32_sign b) 0x7F800000
     else if f32_is_inf b then f32_signed_bits (f32_sign a \<noteq> f32_sign b) 0
     else f32_make (f32_sign a \<noteq> f32_sign b) (f32_mag a) (f32_mag b))"

text \<open>
  The comparison \<^verbatim>\<open><\<close>: false when an operand is a NaN; otherwise the order of the
  sign-magnitude bit patterns (both zeros are equal).
\<close>

definition f32_key :: "f32 \<Rightarrow> int" where
  "f32_key w = (if f32_sign w then - f32_abs_bits w else f32_abs_bits w)"

definition f32_lt :: "f32 \<Rightarrow> f32 \<Rightarrow> bool" where
  "f32_lt a b = (\<not> f32_is_nan a \<and> \<not> f32_is_nan b \<and> f32_key a < f32_key b)"

text \<open>
  The cast \<^verbatim>\<open>(int)f\<close> truncates towards zero; C leaves it undefined for a NaN, an
  infinity and a value outside the range of \<^verbatim>\<open>int\<close>: \<open>None\<close>.
\<close>

definition f32_to_int :: "f32 \<Rightarrow> int option" where
  "f32_to_int w =
     (if f32_is_nan w \<or> f32_is_inf w then None
      else let t = (if f32_sign w then - 1 else 1) * (f32_mag w div 2 ^ 149)
           in if - (2 ^ 31) \<le> t \<and> t < 2 ^ 31 then Some t else None)"

text \<open>The constant expressions of the header, folded as the compiler folds them.\<close>

definition inv65535 :: f32 where
  "inv65535 = f32_div (f32_of_int 1) (f32_of_int 65535)"

definition inv32768 :: f32 where
  "inv32768 = f32_div (f32_of_int 1) (f32_of_int 32768)"

definition inv32767 :: f32 where
  "inv32767 = f32_div (f32_of_int 1) (f32_of_int 32767)"

definition inv255 :: f32 where
  "inv255 = f32_div (f32_of_int 1) (f32_of_int 255)"

definition inv128 :: f32 where
  "inv128 = f32_div (f32_of_int 1) (f32_of_int 128)"

definition inv127 :: f32 where
  "inv127 = f32_div (f32_of_int 1) (f32_of_int 127)"

definition read_f32 :: "memory \<Rightarrow> addr \<Rightarrow> f32" where
  "read_f32 mem a = read_u32 mem a"

section \<open>Decoded vertex formats\<close>

text \<open>The anonymous \<^verbatim>\<open>enum\<close> of decoded formats, kept in a \<^verbatim>\<open>u8\<close>.\<close>

definition DEC_NONE :: u8 where "DEC_NONE = 0"
definition DEC_FLOAT_1 :: u8 where "DEC_FLOAT_1 = 1"
definition DEC_FLOAT_2 :: u8 where "DEC_FLOAT_2 = 2"
definition DEC_FLOAT_3 :: u8 where "DEC_FLOAT_3 = 3"
definition DEC_FLOAT_4 :: u8 where "DEC_FLOAT_4 = 4"
definition DEC_S8_3 :: u8 where "DEC_S8_3 = 5"
definition DEC_S16_3 :: u8 where "DEC_S16_3 = 6"
definition DEC_U8_1 :: u8 where "DEC_U8_1 = 7"
definition DEC_U8_2 :: u8 where "DEC_U8_2 = 8"
definition DEC_U8_3 :: u8 where "DEC_U8_3 = 9"
definition DEC_U8_4 :: u8 where "DEC_U8_4 = 10"
definition DEC_U16_1 :: u8 where "DEC_U16_1 = 11"
definition DEC_U16_2 :: u8 where "DEC_U16_2 = 12"
definition DEC_U16_3 :: u8 where "DEC_U16_3 = 13"
definition DEC_U16_4 :: u8 where "DEC_U16_4 = 14"

record DecVtxFormat =
  uvfmt :: u8
  uvoff :: u8
  c0fmt :: u8
  c0off :: u8
  c1fmt :: u8
  c1off :: u8
  nrmfmt :: u8
  nrmoff :: u8
  posfmt :: u8
  posoff :: u8
  stride :: "16 word"
  id :: u32

text \<open>\<^verbatim>\<open>RoundUp4\<close> on a 32-bit \<^verbatim>\<open>int\<close>: \<^verbatim>\<open>(x + 3) & ~3\<close>.\<close>

definition RoundUp4 :: "32 word \<Rightarrow> 32 word" where
  "RoundUp4 x = (x + 3) AND NOT 3"

section \<open>Diagnostics\<close>

text \<open>
  The readers report an unsupported format through \<^verbatim>\<open>ERROR_LOG_REPORT_ONCE\<close>, whose
  first argument names the call site and whose last is the offending format. The state of
  reporting is the keys already reported and the diagnostics raised so far.
\<close>

datatype report_site = fmtpos | fmtz16 | fmtnrm | fmtuv | fmtc0 | fmtc1

record 'k reporting =
  reported :: "'k list"
  emitted :: "(report_site \<times> u8) list"

definition no_reports :: "'k reporting" where
  "no_reports = \<lparr>reported = [], emitted = []\<rparr>"

text \<open>
  Modelled from the spec: the macro \<^verbatim>\<open>ERROR_LOG_REPORT_ONCE\<close> comes from
  \<^verbatim>\<open>Common/Log.h\<close> and \<^verbatim>\<open>Core/Reporting.h\<close>, which are not part of the sources at
  hand. The spec asks for a "deduplicated diagnostic", raised once and not per vertex:
  the diagnostic is raised unless its key was reported before. What the macro
  deduplicates on (the call site alone, or the call site with the format) is the
  parameter \<open>key\<close>.
\<close>

definition ERROR_LOG_REPORT_ONCE ::
  "(report_site \<Rightarrow> u8 \<Rightarrow> 'k) \<Rightarrow> report_site \<Rightarrow> u8 \<Rightarrow> 'k reporting \<Rightarrow> 'k reporting" where
  "ERROR_LOG_REPORT_ONCE key n v rep =
     (if key n v \<in> set (reported rep) then rep
      else rep\<lparr>reported := key n v # reported rep, emitted := emitted rep @ [(n, v)]\<rparr>)"

section \<open>\<^verbatim>\<open>VertexReader\<close>\<close>

text \<open>
  The members \<^verbatim>\<open>base_\<close>, \<^verbatim>\<open>data_\<close>, \<^verbatim>\<open>decFmt_\<close> and \<^verbatim>\<open>vtype_\<close> (a name
  cannot end in an underscore here).
\<close>

record VertexReader =
  rd_base :: addr
  rd_data :: addr
  rd_decFmt :: DecVtxFormat
  rd_vtype :: u32

definition VertexReader_new :: "addr \<Rightarrow> DecVtxFormat \<Rightarrow> u32 \<Rightarrow> VertexReader" where
  "VertexReader_new base decFmt vtype =
     \<lparr>rd_base = base, rd_data = base, rd_decFmt = decFmt, rd_vtype = vtype\<rparr>"

definition isThrough :: "ge_constants \<Rightarrow> VertexReader \<Rightarrow> bool" where
  "isThrough gc r = (rd_vtype r AND GE_VTYPE_THROUGH gc \<noteq> 0)"

definition hasColor0 :: "VertexReader \<Rightarrow> bool" where
  "hasColor0 r = (c0fmt (rd_decFmt r) \<noteq> 0)"

definition hasColor1 :: "VertexReader \<Rightarrow> bool" where
  "hasColor1 r = (c1fmt (rd_decFmt r) \<noteq> 0)"

definition hasNormal :: "VertexReader \<Rightarrow> bool" where
  "hasNormal r = (nrmfmt (rd_decFmt r) \<noteq> 0)"

definition hasUV :: "VertexReader \<Rightarrow> bool" where
  "hasUV r = (uvfmt (rd_decFmt r) \<noteq> 0)"

text \<open>
  \<^verbatim>\<open>Goto\<close>: \<^verbatim>\<open>data_ = base_ + index * decFmt_.stride\<close>, with the \<^verbatim>\<open>short\<close> stride
  promoted to \<^verbatim>\<open>int\<close>. The product is taken in the integers, which is the C value
  whenever the multiplication does not overflow.
\<close>

definition Goto :: "VertexReader \<Rightarrow> int \<Rightarrow> VertexReader" where
  "Goto r index = r\<lparr>rd_data := rd_base r + index * sint (stride (rd_decFmt r))\<rparr>"

text \<open>
  The readers take the memory and the reporting state and return what they wrote to
  their output array together with the new reporting state. The \<^verbatim>\<open>switch\<close> cases are
  in source order.
\<close>

definition ReadPos ::
  "(report_site \<Rightarrow> u8 \<Rightarrow> 'k) \<Rightarrow> ge_constants \<Rightarrow> memory \<Rightarrow> VertexReader \<Rightarrow> 'k reporting
     \<Rightarrow> f32 list option \<times> 'k reporting" where
  "ReadPos key gc mem r rep =
     (let fmt = posfmt (rd_decFmt r); p = rd_data r + uint (posoff (rd_decFmt r)) in
      if fmt = DEC_FLOAT_3 then
        (let pos = [read_f32 mem p, read_f32 mem (p + 4), read_f32 mem (p + 8)] in
         if isThrough gc r then
           (case f32_to_int (pos ! 2) of
              None \<Rightarrow> (None, rep)
            | Some i \<Rightarrow>
                (let z = f32_mul (f32_of_int i) inv65535 in
                 (Some [pos ! 0, pos ! 1,
                        if f32_lt (f32_of_int 1) z then f32_of_int 1
                        else if f32_lt z (f32_of_int 0) then f32_of_int 0 else z], rep)))
         else (Some pos, rep))
      else if fmt = DEC_S16_3 then
        (if isThrough gc r then
           (Some [f32_of_int (read_s16 mem p), f32_of_int (read_s16 mem (p + 2)),
                  f32_mul (f32_of_int (uint (read_u16 mem (p + 4)))) inv65535], rep)
         else
           (Some [f32_mul (f32_of_int (read_s16 mem p)) inv32768,
                  f32_mul (f32_of_int (read_s16 mem (p + 2))) inv32768,
                  f32_mul (f32_of_int (read_s16 mem (p + 4))) inv32768], rep))
      else if fmt = DEC_S8_3 then
        (if isThrough gc r then
           (Some [f32_of_int (read_s8 mem p), f32_of_int (read_s8 mem (p + 1)),
                  f32_mul (f32_of_int (uint (read_u8 mem (p + 2)))) inv255], rep)
         else
           (Some [f32_mul (f32_of_int (read_s8 mem p)) inv128,
                  f32_mul (f32_of_int (read_s8 mem (p + 1))) inv128,
                  f32_mul (f32_of_int (read_s8 mem (p + 2))) inv128], rep))
      else (Some [0, 0, 0], ERROR_LOG_REPORT_ONCE key fmtpos fmt rep))"

definition ReadPosThroughZ16 ::
  "(report_site \<Rightarrow> u8 \<Rightarrow> 'k) \<Rightarrow> ge_constants \<Rightarrow> memory \<Rightarrow> VertexReader \<Rightarrow> 'k reporting
     \<Rightarrow> f32 list option \<times> 'k reporting" where
  "ReadPosThroughZ16 key gc mem r rep =
     (let fmt = posfmt (rd_decFmt r); p = rd_data r + uint (posoff (rd_decFmt r)) in
      if fmt = DEC_FLOAT_3 then
        (let pos = [read_f32 mem p, read_f32 mem (p + 4), read_f32 mem (p + 8)] in
         if isThrough gc r then
           (case f32_to_int (pos ! 2) of
              None \<Rightarrow> (None, rep)
            | Some i \<Rightarrow>
                (let z = f32_of_int i in
                 (Some [pos ! 0, pos ! 1,
                        if f32_lt (f32_of_int 65535) z then f32_of_int 65535
                        else if f32_lt z (f32_of_int 0) then f32_of_int 0 else z], rep)))
         else (Some pos, rep))
      else if fmt = DEC_S16_3 then
        (if isThrough gc r then
           (Some [f32_of_int (read_s16 mem p), f32_of_int (read_s16 mem (p + 2)),
                  f32_of_int (uint (read_u16 mem (p + 4)))], rep)
         else
           (Some [f32_mul (f32_of_int (read_s16 mem p)) inv32768,
                  f32_mul (f32_of_int (read_s16 mem (p + 2))) inv32768,
                  f32_mul (f32_of_int (read_s16 mem (p + 4))) inv32768], rep))
      else if fmt = DEC_S8_3 then
        (if isThrough gc r then
           (Some [f32_of_int (read_s8 mem p), f32_of_int (read_s8 mem (p + 1)),
                  f32_of_int (uint (read_u8 mem (p + 2)))], rep)
         else
           (Some [f32_mul (f32_of_int (read_s8 mem p)) inv128,
                  f32_mul (f32_of_int (read_s8 mem (p + 1))) inv128,
                  f32_mul (f32_of_int (read_s8 mem (p + 2))) inv128], rep))
      else (Some [0, 0, 0], ERROR_LOG_REPORT_ONCE key fmtz16 fmt rep))"

definition ReadNrm ::
  "(report_site \<Rightarrow> u8 \<Rightarrow> 'k) \<Rightarrow> memory \<Rightarrow> VertexReader \<Rightarrow> 'k reporting
     \<Rightarrow> f32 list \<times> 'k reporting" where
  "ReadNrm key mem r rep =
     (let fmt = nrmfmt (rd_decFmt r); p = rd_data r + uint (nrmoff (rd_decFmt r)) in
      if fmt = DEC_FLOAT_3 then
        ([read_f32 mem p, read_f32 mem (p + 4), read_f32 mem (p + 8)], rep)
      else if fmt = DEC_S16_3 then
        ([f32_mul (f32_of_int (read_s16 mem p)) inv32767,
          f32_mul (f32_of_int (read_s16 mem (p + 2))) inv32767,
          f32_mul (f32_of_int (read_s16 mem (p + 4))) inv32767], rep)
      else if fmt = DEC_S8_3 then
        ([f32_mul (f32_of_int (read_s8 mem p)) inv127,
          f32_mul (f32_of_int (read_s8 mem (p + 1))) inv127,
          f32_mul (f32_of_int (read_s8 mem (p + 2))) inv127], rep)
      else ([0, 0, 0], ERROR_LOG_REPORT_ONCE key fmtnrm fmt rep))"

definition ReadUV ::
  "(report_site \<Rightarrow> u8 \<Rightarrow> 'k) \<Rightarrow> memory \<Rightarrow> VertexReader \<Rightarrow> 'k reporting
     \<Rightarrow> f32 list \<times> 'k reporting" where
  "ReadUV key mem r rep =
     (let fmt = uvfmt (rd_decFmt r); p = rd_data r + uint (uvoff (rd_decFmt r)) in
      if fmt = DEC_U8_2 then
        ([f32_mul (f32_of_int (uint (read_u8 mem p))) inv128,
          f32_mul (f32_of_int (uint (read_u8 mem (p + 1)))) inv128], rep)
      else if fmt = DEC_U16_2 then
        ([f32_mul (f32_of_int (uint (read_u16 mem p))) inv32768,
          f32_mul (f32_of_int (uint (read_u16 mem (p + 2)))) inv32768], rep)
      else if fmt = DEC_FLOAT_2 then
        ([read_f32 mem p, read_f32 mem (p + 4)], rep)
      else ([0, 0], ERROR_LOG_REPORT_ONCE key fmtuv fmt rep))"

definition ReadColor0 ::
  "(report_site \<Rightarrow> u8 \<Rightarrow> 'k) \<Rightarrow> memory \<Rightarrow> VertexReader \<Rightarrow> 'k reporting
     \<Rightarrow> f32 list \<times> 'k reporting" where
  "ReadColor0 key mem r rep =
     (let fmt = c0fmt (rd_decFmt r); p = rd_data r + uint (c0off (rd_decFmt r)) in
      if fmt = DEC_U8_4 then
        ([f32_mul (f32_of_int (uint (read_u8 mem p))) inv255,
          f32_mul (f32_of_int (uint (read_u8 mem (p + 1)))) inv255,
          f32_mul (f32_of_int (uint (read_u8 mem (p + 2)))) inv255,
          f32_mul (f32_of_int (uint (read_u8 mem (p + 3)))) inv255], rep)
      else if fmt = DEC_FLOAT_4 then
        ([read_f32 mem p, read_f32 mem (p + 4), read_f32 mem (p + 8), read_f32 mem (p + 12)],
         rep)
      else ([0, 0, 0, 0], ERROR_LOG_REPORT_ONCE key fmtc0 fmt rep))"

definition ReadColor1 ::
  "(report_site \<Rightarrow> u8 \<Rightarrow> 'k) \<Rightarrow> memory \<Rightarrow> VertexReader \<Rightarrow> 'k reporting
     \<Rightarrow> f32 list \<times> 'k reporting" where
  "ReadColor1 key mem r rep =
     (let fmt = c1fmt (rd_decFmt r); p = rd_data r + uint (c1off (rd_decFmt r)) in
      if fmt = DEC_U8_4 then
        ([f32_mul (f32_of_int (uint (read_u8 mem p))) inv255,
          f32_mul (f32_of_int (uint (read_u8 mem (p + 1)))) inv255,
          f32_mul (f32_of_int (uint (read_u8 mem (p + 2)))) inv255], rep)
      else if fmt = DEC_FLOAT_4 then
        ([read_f32 mem p, read_f32 mem (p + 4), read_f32 mem (p + 8)], rep)
      else ([0, 0, 0], ERROR_LOG_REPORT_ONCE key fmtc1 fmt rep))"

text \<open>
  A consumer of the reader: a sequence of calls on one \<^verbatim>\<open>VertexReader\<close>, each
  returning the floats it produced (\<open>None\<close> where the position cast is undefined).
\<close>

datatype reader_call =
  CallReadPos | CallReadPosThroughZ16 | CallReadNrm | CallReadUV
  | CallReadColor0 | CallReadColor1 | CallGoto int

fun call ::
  "(report_site \<Rightarrow> u8 \<Rightarrow> 'k) \<Rightarrow> ge_constants \<Rightarrow> memory \<Rightarrow> reader_call
     \<Rightarrow> VertexReader \<times> 'k reporting \<Rightarrow> f32 list option \<times> VertexReader \<times> 'k reporting" where
  "call key gc mem CallReadPos (r, rep) =
     (let (out, rep') = ReadPos key gc mem r rep in (out, r, rep'))"
| "call key gc mem CallReadPosThroughZ16 (r, rep) =
     (let (out, rep') = ReadPosThroughZ16 key gc mem r rep in (out, r, rep'))"
| "call key gc mem CallReadNrm (r, rep) =
     (let (out, rep') = ReadNrm key mem r rep in (Some out, r, rep'))"
| "call key gc mem CallReadUV (r, rep) =
     (let (out, rep') = ReadUV key mem r rep in (Some out, r, rep'))"
| "call key gc mem CallReadColor0 (r, rep) =
     (let (out, rep') = ReadColor0 key mem r rep in (Some out, r, rep'))"
| "call key gc mem CallReadColor1 (r, rep) =
     (let (out, rep') = ReadColor1 key mem r rep in (Some out, r, rep'))"
| "call key gc mem (CallGoto index) (r, rep) = (Some [], Goto r index, rep)"

fun calls ::
  "(report_site \<Rightarrow> u8 \<Rightarrow> 'k) \<Rightarrow> ge_constants \<Rightarrow> memory \<Rightarrow> reader_call list
     \<Rightarrow> VertexReader \<times> 'k reporting
     \<Rightarrow> f32 list option list \<times> VertexReader \<times> 'k reporting" where
  "calls key gc mem [] s = ([], s)"
| "calls key gc mem (c # cs) s =
     (let (out, s') = call key gc mem c s;
          (outs, s'') = calls key gc mem cs s'
      in (out # outs, s''))"

section \<open>Invariant of the reporting state\<close>

text \<open>
  No two diagnostics raised so far have the same key, and the key of every diagnostic
  raised is among the keys remembered.
\<close>

definition reporting_inv :: "(report_site \<Rightarrow> u8 \<Rightarrow> 'k) \<Rightarrow> 'k reporting \<Rightarrow> bool" where
  "reporting_inv key rep =
     (distinct (map (\<lambda>(n, v). key n v) (emitted rep))
      \<and> list_all (\<lambda>(n, v). key n v \<in> set (reported rep)) (emitted rep))"

text \<open>
  The bytes of the alpha component of color1 in one decoded vertex: the fourth byte of a
  4x-uint8 color, the fourth float of a 4x-float color.
\<close>

definition color1_alpha_addrs :: "VertexReader \<Rightarrow> addr set" where
  "color1_alpha_addrs r =
     (let p = rd_data r + uint (c1off (rd_decFmt r)) in
      if c1fmt (rd_decFmt r) = DEC_U8_4 then {p + 3}
      else if c1fmt (rd_decFmt r) = DEC_FLOAT_4 then {p + 12, p + 13, p + 14, p + 15}
      else {})"

section \<open>A decoded vertex buffer to run the readers on\<close>

text \<open>
  Two vertices of 28 bytes at address \<open>0x1000\<close>: texture coordinates as two floats,
  two 4x-uint8 colors, a signed-8 normal and a signed-16 position. The first vertex has
  position \<open>(10, -3)\<close> with the Z bytes \<open>9C FF\<close>, which is \<open>-100\<close> as a signed and
  \<open>65436\<close> as an unsigned 16-bit value; the second has Z bytes \<open>70 11\<close>, which is
  \<open>70000 mod 65536 = 4464\<close>.
\<close>

definition example_layout :: DecVtxFormat where
  "example_layout =
     \<lparr>uvfmt = DEC_FLOAT_2, uvoff = 0, c0fmt = DEC_U8_4, c0off = 8, c1fmt = DEC_U8_4,
      c1off = 12, nrmfmt = DEC_S8_3, nrmoff = 16, posfmt = DEC_S16_3, posoff = 20,
      stride = 28, id = 0\<rparr>"

definition example_bytes :: "u8 list" where
  "example_bytes =
     [0x00, 0x00, 0x00, 0x3F,  0x00, 0x00, 0x80, 0x3E,
      0xFF, 0x80, 0x00, 0xFF,
      0x10, 0x20, 0x30, 0x40,
      0x7F, 0x81, 0x00, 0x00,
      0x0A, 0x00, 0xFD, 0xFF, 0x9C, 0xFF, 0x00, 0x00,
      0x00, 0x00, 0x80, 0x3F,  0x00, 0x00, 0x00, 0x00,
      0x01, 0x02, 0x03, 0x04,
      0x05, 0x06, 0x07, 0x08,
      0x40, 0xC0, 0x80, 0x00,
      0xFF, 0x7F, 0x00, 0x80, 0x70, 0x11, 0x00, 0x00]"

definition example_memory :: memory where
  "example_memory = store_bytes 0x1000 example_bytes (\<lambda>a. 0)"

text \<open>The same buffer read in through mode and in transform mode.\<close>

definition example_through :: VertexReader where
  "example_through = VertexReader_new 0x1000 example_layout 0x800100"

definition example_transform :: VertexReader where
  "example_transform = VertexReader_new 0x1000 example_layout 0x000100"

text \<open>
  A through-mode vertex with a float position at address \<open>0x2000\<close>: \<open>(1.0, 2.0, z)\<close> for
  a given float \<open>z\<close>.
\<close>

definition float_layout :: DecVtxFormat where
  "float_layout =
     \<lparr>uvfmt = DEC_NONE, uvoff = 0, c0fmt = DEC_NONE, c0off = 0, c1fmt = DEC_NONE,
      c1off = 0, nrmfmt = DEC_NONE, nrmoff = 0, posfmt = DEC_FLOAT_3, posoff = 0,
      stride = 12, id = 0\<rparr>"

definition float_memory :: "f32 \<Rightarrow> memory" where
  "float_memory z =
     store_bytes 0x2000 ([0x00, 0x00, 0x80, 0x3F, 0x00, 0x00, 0x00, 0x40] @ bytes_u32 z)
       (\<lambda>a. 0)"

definition float_through :: VertexReader where
  "float_through = VertexReader_new 0x2000 float_layout 0x800000"

text \<open>The key of a diagnostic when the macro deduplicates on the call site alone.\<close>

definition site_key :: "report_site \<Rightarrow> u8 \<Rightarrow> report_site" where
  "site_key n v = n"

section \<open>Formats outside the supported set\<close>

text \<open>
  A call meets an unsupported format when the format it switches on is none of its case
  labels; the zero fill is what the \<^verbatim>\<open>memset\<close> of its \<^verbatim>\<open>default\<close> branch writes.
\<close>

fun unsupported :: "reader_call \<Rightarrow> VertexReader \<Rightarrow> bool" where
  "unsupported CallReadPos r = (posfmt (rd_decFmt r) \<notin> {DEC_FLOAT_3, DEC_S16_3, DEC_S8_3})"
| "unsupported CallReadPosThroughZ16 r =
     (posfmt (rd_decFmt r) \<notin> {DEC_FLOAT_3, DEC_S16_3, DEC_S8_3})"
| "unsupported CallReadNrm r = (nrmfmt (rd_decFmt r) \<notin> {DEC_FLOAT_3, DEC_S16_3, DEC_S8_3})"
| "unsupported CallReadUV r = (uvfmt (rd_decFmt r) \<notin> {DEC_U8_2, DEC_U16_2, DEC_FLOAT_2})"
| "unsupported CallReadColor0 r = (c0fmt (rd_decFmt r) \<notin> {DEC_U8_4, DEC_FLOAT_4})"
| "unsupported CallReadColor1 r = (c1fmt (rd_decFmt r) \<notin> {DEC_U8_4, DEC_FLOAT_4})"
| "unsupported (CallGoto index) r = False"

fun zero_fill :: "reader_call \<Rightarrow> f32 list" where
  "zero_fill CallReadUV = [0, 0]"
| "zero_fill CallReadColor0 = [0, 0, 0, 0]"
| "zero_fill (CallGoto index) = []"
| "zero_fill c = [0, 0, 0]"

text \<open>
  The example vertices read with a normal format one past the last defined encoding.
\<close>

definition example_bad_normal :: VertexReader where
  "example_bad_normal =
     VertexReader_new 0x1000 (example_layout\<lparr>nrmfmt := 15\<rparr>) 0x800100"

section \<open>The decoder: planning a vertex type\<close>

text \<open>
  Modelled from the spec: the bodies of \<^verbatim>\<open>VertexDecoder::SetVertexType\<close>,
  \<^verbatim>\<open>VertexDecoder::DecodeVerts\<close>, \<^verbatim>\<open>DecFmtSize\<close> and \<^verbatim>\<open>DecVtxFormat::ComputeID\<close> are
  not among the sources; the header declares them and the members of the decoder. The
  planner of this section follows the specification's FormatPlanner (section 4.2) slot by
  slot: weights, texture coordinates, color, normal, position. The packed descriptor
  (section 3) is taken with its fields already extracted; the bit layout of the vertex
  type is in \<^verbatim>\<open>GPU/ge_constants.h\<close>.
\<close>

datatype encoding =
  Absent | Bits8 | Bits16 | Float32 | Packed565 | Packed5551 | Packed4444 | Packed8888

record PackedVertexDescriptor =
  weights_enc :: encoding
  texcoord_enc :: encoding
  color0_enc :: encoding
  color1_enc :: encoding
  normal_enc :: encoding
  position_enc :: encoding
  weight_count :: nat
  morph_count :: nat
  through_mode :: bool

text \<open>The options, as the header declares them.\<close>

record VertexDecoderOptions =
  expandAllWeightsToFloat :: bool
  expand8BitNormalsToFloat :: bool

datatype attribute_slot = WeightsSlot | TexcoordSlot | ColorSlot | NormalSlot | PositionSlot

record ConversionStep =
  step_slot :: attribute_slot
  step_source :: encoding
  step_to_float :: bool
  step_skinned :: bool
  step_morphed :: bool
  step_through :: bool
  step_zero_fill :: bool

definition numeric_enc :: "encoding \<Rightarrow> bool" where
  "numeric_enc e = (e = Bits8 \<or> e = Bits16 \<or> e = Float32)"

definition color_enc :: "encoding \<Rightarrow> bool" where
  "color_enc e = (e = Packed565 \<or> e = Packed5551 \<or> e = Packed4444 \<or> e = Packed8888)"

text \<open>
  Modelled from the spec: the step of each slot (\<^verbatim>\<open>SetVertexType\<close> is missing). A slot
  with an encoding outside its supported set gets a zero-fill step; an absent attribute
  gets none.
\<close>

definition weights_step ::
  "PackedVertexDescriptor \<Rightarrow> VertexDecoderOptions \<Rightarrow> ConversionStep list" where
  "weights_step d opts =
     (if 0 < weight_count d then
        [\<lparr>step_slot = WeightsSlot, step_source = weights_enc d,
          step_to_float = (expandAllWeightsToFloat opts \<or> weights_enc d = Float32),
          step_skinned = True, step_morphed = False, step_through = False,
          step_zero_fill = (\<not> numeric_enc (weights_enc d))\<rparr>]
      else [])"

definition texcoord_step :: "PackedVertexDescriptor \<Rightarrow> ConversionStep list" where
  "texcoord_step d =
     (if texcoord_enc d = Absent then []
      else [\<lparr>step_slot = TexcoordSlot, step_source = texcoord_enc d, step_to_float = True,
             step_skinned = False, step_morphed = (1 < morph_count d),
             step_through = through_mode d,
             step_zero_fill = (\<not> numeric_enc (texcoord_enc d))\<rparr>])"

definition color_step :: "PackedVertexDescriptor \<Rightarrow> ConversionStep list" where
  "color_step d =
     (if color0_enc d = Absent \<and> color1_enc d = Absent then []
      else [\<lparr>step_slot = ColorSlot, step_source = color0_enc d, step_to_float = False,
             step_skinned = False, step_morphed = (1 < morph_count d), step_through = False,
             step_zero_fill =
               (\<not> (color_enc (color0_enc d) \<or> color0_enc d = Absent)
                \<or> \<not> (color_enc (color1_enc d) \<or> color1_enc d = Absent))\<rparr>])"

definition normal_step ::
  "PackedVertexDescriptor \<Rightarrow> VertexDecoderOptions \<Rightarrow> ConversionStep list" where
  "normal_step d opts =
     (if normal_enc d = Absent then []
      else [\<lparr>step_slot = NormalSlot, step_source = normal_enc d,
             step_to_float = (normal_enc d \<noteq> Bits8 \<or> expand8BitNormalsToFloat opts),
             step_skinned = (0 < weight_count d), step_morphed = (1 < morph_count d),
             step_through = False,
             step_zero_fill = (\<not> numeric_enc (normal_enc d))\<rparr>])"

definition position_step :: "PackedVertexDescriptor \<Rightarrow> ConversionStep list" where
  "position_step d =
     (if position_enc d = Absent then []
      else [\<lparr>step_slot = PositionSlot, step_source = position_enc d, step_to_float = True,
             step_skinned = (0 < weight_count d), step_morphed = (1 < morph_count d),
             step_through = through_mode d,
             step_zero_fill = (\<not> numeric_enc (position_enc d))\<rparr>])"

text \<open>
  Modelled from the spec: the pipeline of \<^verbatim>\<open>SetVertexType\<close>, the steps in slot order.
\<close>

definition Plan :: "PackedVertexDescriptor \<Rightarrow> VertexDecoderOptions \<Rightarrow> ConversionStep list" where
  "Plan d opts =
     weights_step d opts @ texcoord_step d @ color_step d @ normal_step d opts
       @ position_step d"

text \<open>
  The members of \<^verbatim>\<open>VertexDecoder\<close> the planner writes: the mutable cursors
  \<^verbatim>\<open>decoded_\<close> and \<^verbatim>\<open>ptr_\<close>, the array \<^verbatim>\<open>steps_[5]\<close> with its count \<^verbatim>\<open>numSteps_\<close>, and
  \<^verbatim>\<open>decFmt\<close>. An entry of the array that was never written is \<open>None\<close>.
\<close>

record VertexDecoder =
  vd_decoded :: addr
  vd_ptr :: addr
  vd_steps :: "nat \<Rightarrow> ConversionStep option"
  vd_numSteps :: int
  vd_decFmt :: DecVtxFormat
  vd_throughmode :: bool
  vd_morphcount :: nat
  vd_nweights :: nat

text \<open>
  Modelled from the spec: how \<^verbatim>\<open>SetVertexType\<close> adds a step,
  \<^verbatim>\<open>steps_[numSteps_++] = s\<close>; a write outside the five entries is \<open>None\<close>.
\<close>

definition push_step :: "ConversionStep \<Rightarrow> VertexDecoder \<Rightarrow> VertexDecoder option" where
  "push_step s dec =
     (if 0 \<le> vd_numSteps dec \<and> vd_numSteps dec < 5 then
        Some (dec\<lparr>vd_steps := (vd_steps dec)(nat (vd_numSteps dec) := Some s),
                  vd_numSteps := vd_numSteps dec + 1\<rparr>)
      else None)"

fun push_all :: "ConversionStep list \<Rightarrow> VertexDecoder \<Rightarrow> VertexDecoder option" where
  "push_all [] dec = Some dec"
| "push_all (s # ss) dec =
     (case push_step s dec of None \<Rightarrow> None | Some dec' \<Rightarrow> push_all ss dec')"

text \<open>
  Modelled from the spec: \<^verbatim>\<open>SetVertexType\<close> (its body is missing) starts a new
  pipeline, records the layout and the flags, and pushes the planned steps. How the
  layout is computed is in the missing body, and the specification gives only the
  invariant it has to meet: the layout computation is the parameter \<open>layout\<close>.
\<close>

definition SetVertexType ::
  "(PackedVertexDescriptor \<Rightarrow> VertexDecoderOptions \<Rightarrow> DecVtxFormat)
     \<Rightarrow> PackedVertexDescriptor \<Rightarrow> VertexDecoderOptions
     \<Rightarrow> VertexDecoder \<Rightarrow> VertexDecoder option" where
  "SetVertexType layout d opts dec =
     push_all (Plan d opts)
       (dec\<lparr>vd_numSteps := 0, vd_decFmt := layout d opts,
            vd_throughmode := through_mode d, vd_morphcount := morph_count d,
            vd_nweights := weight_count d\<rparr>)"

text \<open>
  Modelled from the spec: the effect of \<^verbatim>\<open>DecodeVerts\<close> (its body is missing) on the
  decoder. It is a \<^verbatim>\<open>const\<close> member: whatever it does, of the decoder it can change
  only the \<^verbatim>\<open>mutable\<close> cursors. Where they end up is a parameter.
\<close>

definition DecodeVerts_decoder :: "addr \<Rightarrow> addr \<Rightarrow> VertexDecoder \<Rightarrow> VertexDecoder" where
  "DecodeVerts_decoder decoded' ptr' dec = dec\<lparr>vd_decoded := decoded', vd_ptr := ptr'\<rparr>"

datatype decoder_op =
  OpSetVertexType PackedVertexDescriptor VertexDecoderOptions
  | OpDecodeVerts addr addr

fun apply_op ::
  "(PackedVertexDescriptor \<Rightarrow> VertexDecoderOptions \<Rightarrow> DecVtxFormat) \<Rightarrow> decoder_op
     \<Rightarrow> VertexDecoder \<Rightarrow> VertexDecoder option" where
  "apply_op layout (OpSetVertexType d opts) dec = SetVertexType layout d opts dec"
| "apply_op layout (OpDecodeVerts decoded' ptr') dec =
     Some (DecodeVerts_decoder decoded' ptr' dec)"

text \<open>The pipeline: the first \<^verbatim>\<open>numSteps_\<close> entries of the array.\<close>

definition pipeline :: "VertexDecoder \<Rightarrow> ConversionStep option list" where
  "pipeline dec = map (vd_steps dec) [0 ..< nat (vd_numSteps dec)]"

definition steps_inv :: "VertexDecoder \<Rightarrow> bool" where
  "steps_inv dec =
     (0 \<le> vd_numSteps dec \<and> vd_numSteps dec \<le> 5 \<and> None \<notin> set (pipeline dec)
      \<and> distinct (map (map_option step_slot) (pipeline dec)))"

text \<open>A vertex type to run the planner on.\<close>

definition example_descriptor :: PackedVertexDescriptor where
  "example_descriptor =
     \<lparr>weights_enc = Bits8, texcoord_enc = Bits16, color0_enc = Packed8888,
      color1_enc = Absent, normal_enc = Bits8, position_enc = Float32,
      weight_count = 2, morph_count = 1, through_mode = False\<rparr>"

definition example_options :: VertexDecoderOptions where
  "example_options = \<lparr>expandAllWeightsToFloat = False, expand8BitNormalsToFloat = False\<rparr>"

definition fresh_decoder :: VertexDecoder where
  "fresh_decoder =
     \<lparr>vd_decoded = 0, vd_ptr = 0, vd_steps = (\<lambda>i. None), vd_numSteps = 0,
      vd_decFmt = float_layout, vd_throughmode = False, vd_morphcount = 0,
      vd_nweights = 0\<rparr>"

section \<open>Index buffers: reading back what was stored\<close>

lemma concat_nth_fixed:
  assumes "\<And>x. length (f x) = n" and "j < length xs" and "i < n"
  shows "concat (map f xs) ! (n * j + i) = f (xs ! j) ! i"
  using assms(2)
proof (induction xs arbitrary: j)
  case Nil
  then show ?case by simp
next
  case (Cons x xs)
  show ?case
  proof (cases j)
    case 0
    then show ?thesis using assms(1,3) by (simp add: nth_append)
  next
    case (Suc j')
    then have "j' < length xs" using Cons.prems by simp
    from Cons.IH [OF this] show ?thesis
      using Suc assms(1) by (simp add: nth_append add.assoc)
  qed
qed

lemma length_concat_fixed:
  assumes "\<And>x. length (f x) = n"
  shows "length (concat (map f xs)) = n * length xs"
  by (induction xs) (simp_all add: assms)

lemma store_bytes_inside:
  "0 \<le> k \<Longrightarrow> nat k < length bs \<Longrightarrow> store_bytes p bs mem (p + k) = bs ! nat k"
  by (auto simp: store_bytes_def)

lemma u16_bytes_nat:
  "unat (word_of_nat (unat w mod 256) :: u8)
     + 256 * unat (word_of_nat (unat w div 256) :: u8) = unat (w :: u16)"
proof -
  have "unat w < 65536" using unsigned_less [of w] by simp
  then have "unat w div 256 < 256" by simp
  then show ?thesis by (simp add: unat_of_nat)
qed

lemma base256_digits:
  "n mod 256 + 256 * (n div 256 mod 256) + 65536 * (n div 65536 mod 256)
     + 16777216 * (n div 16777216) = (n :: nat)"
proof -
  define a b c where "a = n div 256" and "b = a div 256" and "c = b div 256"
  define r0 r1 r2 where "r0 = n mod 256" and "r1 = a mod 256" and "r2 = b mod 256"
  have e0: "n = r0 + 256 * a" and e1: "a = r1 + 256 * b" and e2: "b = r2 + 256 * c"
    by (simp_all add: a_def b_def c_def r0_def r1_def r2_def)
  have d2: "n div 65536 = b" and d3: "n div 16777216 = c"
    by (simp_all add: a_def b_def c_def div_mult2_eq)
  have "r0 + 256 * r1 + 65536 * r2 + 16777216 * c = n"
    using e0 e1 e2 by linarith
  then show ?thesis
    unfolding d2 d3 by (simp add: a_def r0_def r1_def r2_def)
qed

lemma u32_bytes_nat:
  "unat (word_of_nat (unat w mod 256) :: u8)
     + 256 * unat (word_of_nat (unat w div 256 mod 256) :: u8)
     + 65536 * unat (word_of_nat (unat w div 65536 mod 256) :: u8)
     + 16777216 * unat (word_of_nat (unat w div 16777216) :: u8) = unat (w :: u32)"
proof -
  have "unat w < 4294967296" using unsigned_less [of w] by simp
  then have "unat w div 16777216 < 256" by simp
  then have "unat (word_of_nat (unat w div 16777216) :: u8) = unat w div 16777216"
    by (simp add: unat_of_nat)
  moreover have "unat (word_of_nat (unat w mod 256) :: u8) = unat w mod 256"
    and "unat (word_of_nat (unat w div 256 mod 256) :: u8) = unat w div 256 mod 256"
    and "unat (word_of_nat (unat w div 65536 mod 256) :: u8) = unat w div 65536 mod 256"
    by (simp_all add: unat_of_nat)
  ultimately show ?thesis
    using base256_digits [of "unat w"] by simp
qed

lemma read_u8_stored:
  assumes "unat i < length es"
  shows "read_u8 (store_bytes p (index_bytes8 es) mem) (p + uint i) = es ! unat i"
  using assms store_bytes_inside [of "uint i" es p mem]
  by (simp add: read_u8_def index_bytes8_def)

lemma read_u16_stored:
  assumes "unat i < length es"
  shows "read_u16 (store_bytes p (index_bytes16 es) mem) (p + 2 * uint i) = es ! unat i"
proof -
  let ?bs = "index_bytes16 es" and ?j = "unat i"
  have len: "length ?bs = 2 * length es"
    unfolding index_bytes16_def by (rule length_concat_fixed) (simp add: bytes_u16_def)
  have b: "k < 2 \<Longrightarrow> ?bs ! (2 * ?j + k) = bytes_u16 (es ! ?j) ! k" for k
    unfolding index_bytes16_def using assms
    by (intro concat_nth_fixed) (simp_all add: bytes_u16_def)
  have m: "k < 2 \<Longrightarrow> store_bytes p ?bs mem (p + 2 * uint i + int k) = ?bs ! (2 * ?j + k)" for k
    using store_bytes_inside [of "2 * uint i + int k" ?bs p mem] assms len
    by (simp add: nat_add_distrib nat_mult_distrib add.assoc)
  have m0: "store_bytes p ?bs mem (p + 2 * uint i) = word_of_nat (unat (es ! ?j) mod 256)"
    using m [of 0] b [of 0] by (simp add: bytes_u16_def)
  have m1: "store_bytes p ?bs mem (p + 2 * uint i + 1) = word_of_nat (unat (es ! ?j) div 256)"
    using m [of 1] b [of 1] by (simp add: bytes_u16_def)
  have "read_u16 (store_bytes p ?bs mem) (p + 2 * uint i) = word_of_nat (unat (es ! ?j))"
    unfolding read_u16_def m0 m1 u16_bytes_nat ..
  then show ?thesis by simp
qed

lemma read_u32_stored:
  assumes "unat i < length es"
  shows "read_u32 (store_bytes p (index_bytes32 es) mem) (p + 4 * uint i) = es ! unat i"
proof -
  let ?bs = "index_bytes32 es" and ?j = "unat i"
  have len: "length ?bs = 4 * length es"
    unfolding index_bytes32_def by (rule length_concat_fixed) (simp add: bytes_u32_def)
  have b: "k < 4 \<Longrightarrow> ?bs ! (4 * ?j + k) = bytes_u32 (es ! ?j) ! k" for k
    unfolding index_bytes32_def using assms
    by (intro concat_nth_fixed) (simp_all add: bytes_u32_def)
  have m: "k < 4 \<Longrightarrow> store_bytes p ?bs mem (p + 4 * uint i + int k) = ?bs ! (4 * ?j + k)" for k
    using store_bytes_inside [of "4 * uint i + int k" ?bs p mem] assms len
    by (simp add: nat_add_distrib nat_mult_distrib add.assoc)
  have m0: "store_bytes p ?bs mem (p + 4 * uint i) = word_of_nat (unat (es ! ?j) mod 256)"
    using m [of 0] b [of 0] by (simp add: bytes_u32_def)
  have m1: "store_bytes p ?bs mem (p + 4 * uint i + 1) = word_of_nat (unat (es ! ?j) div 256 mod 256)"
    using m [of 1] b [of 1] by (simp add: bytes_u32_def)
  have m2: "store_bytes p ?bs mem (p + 4 * uint i + 2) = word_of_nat (unat (es ! ?j) div 65536 mod 256)"
    using m [of 2] b [of 2] by (simp add: bytes_u32_def)
  have m3: "store_bytes p ?bs mem (p + 4 * uint i + 3) = word_of_nat (unat (es ! ?j) div 16777216)"
    using m [of 3] b [of 3] by (simp add: bytes_u32_def)
  have "read_u32 (store_bytes p ?bs mem) (p + 4 * uint i) = word_of_nat (unat (es ! ?j))"
    unfolding read_u32_def m0 m1 m2 m3 u32_bytes_nat ..
  then show ?thesis by simp
qed


section \<open>Rounding: what the float operations return\<close>

lemma bitlen_nonpos: "n \<le> 0 \<Longrightarrow> bitlen n = 0"
  by (subst bitlen.simps) simp

lemma bitlen_pos: "0 < n \<Longrightarrow> bitlen n = Suc (bitlen (n div 2))"
  by (subst bitlen.simps) simp

lemma bitlen_1 [simp]: "bitlen 1 = 1"
  by (simp add: bitlen_pos bitlen_nonpos)

lemma bitlen_0 [simp]: "bitlen 0 = 0"
  by (simp add: bitlen_nonpos)

lemma bitlen_Bit0 [simp]: "bitlen (numeral (Num.Bit0 n)) = Suc (bitlen (numeral n))"
  by (subst bitlen.simps) simp

lemma bitlen_Bit1 [simp]: "bitlen (numeral (Num.Bit1 n)) = Suc (bitlen (numeral n))"
  by (subst bitlen.simps) simp

lemma bitlen_bounds: "0 < n \<Longrightarrow> 2 ^ (bitlen n - 1) \<le> n \<and> n < 2 ^ bitlen n"
proof (induction n rule: bitlen.induct)
  case (1 n)
  show ?case
  proof (cases "n = 1")
    case True
    then show ?thesis by simp
  next
    case False
    with "1.prems" have h: "0 < n div 2" by simp
    have ih: "2 ^ (bitlen (n div 2) - 1) \<le> n div 2 \<and> n div 2 < 2 ^ bitlen (n div 2)"
      using "1.IH" "1.prems" h by simp
    have pos: "0 < bitlen (n div 2)" using h by (simp add: bitlen_pos)
    have eq: "bitlen n = Suc (bitlen (n div 2))" using "1.prems" by (rule bitlen_pos)
    have "2 * 2 ^ (bitlen (n div 2) - 1) \<le> n" using ih by linarith
    moreover have "(2::int) * 2 ^ (bitlen (n div 2) - 1) = 2 ^ bitlen (n div 2)"
      using pos by (cases "bitlen (n div 2)") simp_all
    moreover have "n < 2 * 2 ^ bitlen (n div 2)" using ih by linarith
    ultimately show ?thesis by (simp add: eq)
  qed
qed

lemma bitlen_le: "n < 2 ^ m \<Longrightarrow> bitlen n \<le> m"
proof (cases "0 < n")
  case True
  assume "n < 2 ^ m"
  with bitlen_bounds [OF True] have "(2::int) ^ (bitlen n - 1) < 2 ^ m" by linarith
  then have "bitlen n - 1 < m" by simp
  then show ?thesis by simp
next
  case False
  then show ?thesis by (simp add: bitlen_nonpos)
qed

lemma bitlen_gt: "2 ^ m \<le> n \<Longrightarrow> m < bitlen n"
proof -
  assume a: "2 ^ m \<le> n"
  then have "0 < n" by (smt (verit) zero_less_power)
  with bitlen_bounds have "n < 2 ^ bitlen n" by simp
  with a have "(2::int) ^ m < 2 ^ bitlen n" by linarith
  then show ?thesis by simp
qed

lemma round_even_div_bounds:
  assumes "0 < d"
  shows "n div d \<le> round_even_div n d \<and> round_even_div n d \<le> n div d + 1"
  by (simp add: round_even_div_def Let_def)

lemma round_even_div_exact:
  assumes "0 < d"
  shows "round_even_div (m * d) d = m"
  using assms by (simp add: round_even_div_def Let_def)

lemma round_even_div_le:
  assumes "0 < d" and "n \<le> m * d"
  shows "round_even_div n d \<le> m"
proof -
  have fm: "n div d \<le> m"
    using assms by (metis nonzero_mult_div_cancel_right zdiv_mono1 less_irrefl)
  show ?thesis
  proof (cases "n div d = m")
    case True
    have "n = d * (n div d) + n mod d" by simp
    with True assms(2) have "n mod d \<le> 0" by (simp add: mult.commute)
    moreover have "0 \<le> n mod d" using assms(1) by simp
    ultimately have "n mod d = 0" by simp
    then show ?thesis using True assms(1) by (simp add: round_even_div_def Let_def)
  next
    case False
    with fm have "n div d + 1 \<le> m" by simp
    with round_even_div_bounds [OF assms(1), of n] show ?thesis by linarith
  qed
qed


lemma div_ge_of_mult_le:
  assumes "0 < (c::int)" and "q * c \<le> n"
  shows "q \<le> n div c"
proof -
  have "(q * c) div c \<le> n div c" using assms by (intro zdiv_mono1) simp_all
  then show ?thesis using assms(1) by simp
qed

lemma div_quot_rem:
  assumes "0 < (c::int)" and "0 \<le> r" and "r < c"
  shows "(q * c + r) div c = q" and "(q * c + r) mod c = r"
  using assms by simp_all

lemma int_lt_succ_div:
  assumes "0 < (d::int)"
  shows "N < d * (N div d + 1)"
proof -
  have e: "d * (N div d) + N mod d = N" by (rule mult_div_mod_eq)
  have m: "N mod d < d" using assms by simp
  have "d * (N div d + 1) = d * (N div d) + d" by (simp add: algebra_simps)
  with e m show ?thesis by linarith
qed

lemma int_div_mult_le:
  assumes "0 < (d::int)"
  shows "d * (N div d) \<le> N"
proof -
  have e: "d * (N div d) + N mod d = N" by (rule mult_div_mod_eq)
  have m: "0 \<le> N mod d" using assms by simp
  from e m show ?thesis by linarith
qed

lemma uint_word32_of_int:
  assumes "0 \<le> x" and "x < 2 ^ 32"
  shows "uint (word_of_int x :: 32 word) = x"
  using assms by (simp add: uint_word_of_int)

lemma f32_signed_bits_fields:
  assumes "0 \<le> b" and "b < 2 ^ 31"
  shows "f32_abs_bits (f32_signed_bits s b) = b" and "f32_sign (f32_signed_bits s b) = s"
proof -
  have "0 \<le> (if s then 2 ^ 31 else 0) + b" and "(if s then 2 ^ 31 else 0) + b < 2 ^ 32"
    using assms by simp_all
  then have u: "uint (f32_signed_bits s b) = (if s then 2 ^ 31 else 0) + b"
    unfolding f32_signed_bits_def by (rule uint_word32_of_int)
  show "f32_abs_bits (f32_signed_bits s b) = b"
    using assms by (simp add: f32_abs_bits_def u)
  show "f32_sign (f32_signed_bits s b) = s"
    using assms by (simp add: f32_sign_def u)
qed

lemma f32_mag_of_bits:
  assumes b: "f32_abs_bits w = int k * 2 ^ 23 + r"
    and r0: "0 \<le> r" and r1: "r \<le> 2 ^ 24" and rk: "0 < k \<Longrightarrow> 2 ^ 23 \<le> r"
  shows "f32_mag w = r * 2 ^ k"
proof -
  consider "r < 2 ^ 23" | "2 ^ 23 \<le> r" "r < 2 ^ 24" | "r = 2 ^ 24"
    using r1 by linarith
  then show ?thesis
  proof cases
    case 1
    with rk have k: "k = 0" by (cases "0 < k") simp_all
    have "f32_abs_bits w div 2 ^ 23 = 0"
      using 1 r0 b k by simp
    then show ?thesis using b k by (simp add: f32_mag_def Let_def)
  next
    case 2
    define r' where "r' = r - 2 ^ 23"
    have r': "0 \<le> r'" "r' < 2 ^ 23" using 2 by (simp_all add: r'_def)
    have e: "f32_abs_bits w = (int k + 1) * 2 ^ 23 + r'"
      using b by (simp add: r'_def algebra_simps)
    have d: "f32_abs_bits w div 2 ^ 23 = int k + 1"
      unfolding e using r' by (intro div_quot_rem) simp_all
    have m: "f32_abs_bits w mod 2 ^ 23 = r'"
      unfolding e using r' by (intro div_quot_rem) simp_all
    have "f32_mag w = (2 ^ 23 + r') * 2 ^ (nat (int k + 1) - 1)"
      unfolding f32_mag_def Let_def d m by simp
    then show ?thesis by (simp add: r'_def nat_add_distrib)
  next
    case 3
    have e: "f32_abs_bits w = (int k + 2) * 2 ^ 23 + 0"
      using b 3 by (simp add: algebra_simps)
    have d: "f32_abs_bits w div 2 ^ 23 = int k + 2"
      unfolding e by (intro div_quot_rem) simp_all
    have m: "f32_abs_bits w mod 2 ^ 23 = 0"
      unfolding e by (intro div_quot_rem) simp_all
    have "f32_mag w = (2 ^ 23 + 0) * 2 ^ (nat (int k + 2) - 1)"
      unfolding f32_mag_def Let_def d m by simp
    then show ?thesis using 3 by (simp add: nat_add_distrib)
  qed
qed

lemma f32_round_sig_bounds:
  assumes n: "0 \<le> n" and d: "0 < d"
  defines "k \<equiv> bitlen (n * 2 ^ 149 div d) - 24"
  defines "r \<equiv> round_even_div (n * 2 ^ 149) (d * 2 ^ k)"
  shows "0 \<le> r" and "r \<le> 2 ^ 24" and "0 < k \<Longrightarrow> 2 ^ 23 \<le> r"
proof -
  let ?N = "n * 2 ^ 149" and ?X = "n * 2 ^ 149 div d"
  have N0: "0 \<le> ?N" using n by simp
  have dk: "0 < d * 2 ^ k" using d by simp
  have X0: "0 \<le> ?X" using N0 d by (simp add: pos_imp_zdiv_nonneg_iff)
  have fl0: "0 \<le> ?N div (d * 2 ^ k)" using N0 dk by (simp add: pos_imp_zdiv_nonneg_iff)
  with round_even_div_bounds [OF dk, of ?N] show "0 \<le> r" by (simp add: r_def)
  have "bitlen ?X \<le> k + 24" by (simp add: k_def)
  have Xlt: "?X < 2 ^ (k + 24)"
  proof (cases "0 < ?X")
    case True
    from bitlen_bounds [OF True] have "?X < 2 ^ bitlen ?X" by simp
    also have "(2::int) ^ bitlen ?X \<le> 2 ^ (k + 24)"
      using \<open>bitlen ?X \<le> k + 24\<close> by (intro power_increasing) simp_all
    finally show ?thesis .
  next
    case False
    with X0 have "?X = 0" by simp
    then show ?thesis by simp
  qed
  have "?N < d * (?X + 1)" using d by (rule int_lt_succ_div)
  also have "d * (?X + 1) \<le> d * 2 ^ (k + 24)"
    using Xlt d by (intro mult_left_mono) simp_all
  finally have "?N \<le> 2 ^ 24 * (d * 2 ^ k)" by (simp add: power_add algebra_simps)
  from round_even_div_le [OF dk this] show "r \<le> 2 ^ 24" by (simp add: r_def)
  show "2 ^ 23 \<le> r" if "0 < k"
  proof -
    from that have "k + 23 < bitlen ?X" by (simp add: k_def)
    have Xpos: "0 < ?X" using that by (cases "0 < ?X") (simp_all add: k_def bitlen_nonpos)
    have "(2::int) ^ (k + 23) \<le> 2 ^ (bitlen ?X - 1)"
      using \<open>k + 23 < bitlen ?X\<close> by (intro power_increasing) simp_all
    also have "\<dots> \<le> ?X" using bitlen_bounds [OF Xpos] by simp
    finally have "d * 2 ^ (k + 23) \<le> d * ?X" using d by (intro mult_left_mono) simp_all
    also have "d * ?X \<le> ?N" using d by (rule int_div_mult_le)
    finally have "2 ^ 23 * (d * 2 ^ k) \<le> ?N" by (simp add: power_add algebra_simps)
    from div_ge_of_mult_le [OF dk this] have "2 ^ 23 \<le> ?N div (d * 2 ^ k)" .
    with round_even_div_bounds [OF dk, of ?N] show ?thesis by (simp add: r_def)
  qed
qed

lemma f32_make_fields:
  assumes n: "0 \<le> n" and d: "0 < d"
  defines "k \<equiv> bitlen (n * 2 ^ 149 div d) - 24"
  defines "r \<equiv> round_even_div (n * 2 ^ 149) (d * 2 ^ k)"
  assumes fin: "int k * 2 ^ 23 + r < 0x7F800000"
  shows "f32_abs_bits (f32_make s n d) = int k * 2 ^ 23 + r"
    and "f32_sign (f32_make s n d) = s"
    and "f32_mag (f32_make s n d) = r * 2 ^ k"
proof -
  have rb: "0 \<le> r" "r \<le> 2 ^ 24" "0 < k \<Longrightarrow> 2 ^ 23 \<le> r"
    using f32_round_sig_bounds [OF n d] by (simp_all add: r_def k_def)
  have rb': "f32_round_bits n d = int k * 2 ^ 23 + r"
    using fin by (simp add: f32_round_bits_def Let_def k_def r_def)
  have b0: "0 \<le> int k * 2 ^ 23 + r" using rb(1) by simp
  have b1: "int k * 2 ^ 23 + r < 2 ^ 31" using fin by simp
  show a: "f32_abs_bits (f32_make s n d) = int k * 2 ^ 23 + r"
    unfolding f32_make_def rb' using b0 b1 by (rule f32_signed_bits_fields)
  show "f32_sign (f32_make s n d) = s"
    unfolding f32_make_def rb' using b0 b1 by (rule f32_signed_bits_fields)
  show "f32_mag (f32_make s n d) = r * 2 ^ k"
    using a rb by (rule f32_mag_of_bits)
qed


lemma f32_make_exact:
  assumes m: "0 \<le> m" "m < 2 ^ 24" and d: "0 < d" and j: "j \<le> 149"
    and e: "n * 2 ^ 149 = m * 2 ^ j * d"
  shows "f32_mag (f32_make s n d) = m * 2 ^ j"
    and "f32_sign (f32_make s n d) = s"
    and "f32_abs_bits (f32_make s n d) < 0x7F800000"
proof -
  define N where "N = n * 2 ^ 149"
  define k where "k = bitlen (N div d) - 24"
  define r where "r = round_even_div N (d * 2 ^ k)"
  have e': "N = m * 2 ^ j * d" using e by (simp only: N_def)
  have n: "0 \<le> n"
  proof -
    have "0 \<le> m * 2 ^ j * d" using m d by simp
    with e have "0 \<le> n * (2::int) ^ 149" by (simp only:)
    then show ?thesis by (simp add: zero_le_mult_iff)
  qed
  have X: "N div d = m * 2 ^ j" using e' d by simp
  have "m * 2 ^ j < 2 ^ 24 * 2 ^ j" using m by (intro mult_strict_right_mono) simp_all
  then have "m * 2 ^ j < 2 ^ (24 + j)" by (simp add: power_add)
  then have "bitlen (m * 2 ^ j) \<le> 24 + j" by (rule bitlen_le)
  then have kj: "k \<le> j" unfolding k_def X by simp
  have "(2::int) ^ j = 2 ^ (j - k) * 2 ^ k"
    using kj by (simp add: power_add [symmetric])
  then have "N = (m * 2 ^ (j - k)) * (d * 2 ^ k)"
    using e' by (simp add: algebra_simps)
  moreover have dk: "0 < d * 2 ^ k" using d by simp
  ultimately have r: "r = m * 2 ^ (j - k)"
    unfolding r_def by (simp only: round_even_div_exact)
  have rb: "r \<le> 2 ^ 24"
    using f32_round_sig_bounds(2) [OF n d] by (simp add: r_def k_def N_def)
  have "int k \<le> 149" using kj j by simp
  then have "int k * 2 ^ 23 \<le> 149 * 2 ^ 23" by (intro mult_right_mono) simp_all
  with rb have fin: "int k * 2 ^ 23 + r < 0x7F800000" by simp
  note f = f32_make_fields [OF n d, folded N_def, folded k_def, folded r_def, OF fin]
  show "f32_sign (f32_make s n d) = s" by (rule f)
  show "f32_abs_bits (f32_make s n d) < 0x7F800000" using fin by (simp only: f)
  have "f32_mag (f32_make s n d) = m * (2 ^ (j - k) * 2 ^ k)"
    by (simp add: f r)
  also have "(2::int) ^ (j - k) * 2 ^ k = 2 ^ j"
    using kj by (simp add: power_add [symmetric])
  finally show "f32_mag (f32_make s n d) = m * 2 ^ j" .
qed

lemma f32_make_le_one:
  assumes n: "0 \<le> n" and d: "0 < d" and nd: "n \<le> d"
  shows "f32_mag (f32_make s n d) \<le> 2 ^ 149"
    and "f32_sign (f32_make s n d) = s"
    and "f32_abs_bits (f32_make s n d) < 0x7F800000"
proof -
  define N where "N = n * 2 ^ 149"
  define k where "k = bitlen (N div d) - 24"
  define r where "r = round_even_div N (d * 2 ^ k)"
  have Nd: "N \<le> 2 ^ 149 * d" using nd by (simp add: N_def)
  have "N div d \<le> (2 ^ 149 * d) div d" using Nd d by (intro zdiv_mono1) simp_all
  then have "N div d \<le> 2 ^ 149" using d by simp
  also have "(2::int) ^ 149 < 2 ^ 150" by simp
  finally have "bitlen (N div d) \<le> 150" by (rule bitlen_le)
  then have k: "k \<le> 126" by (simp add: k_def)
  have dk: "0 < d * 2 ^ k" using d by simp
  have "(2::int) ^ 149 = 2 ^ (149 - k) * 2 ^ k"
    using k by (simp add: power_add [symmetric])
  then have "N \<le> 2 ^ (149 - k) * (d * 2 ^ k)" using Nd by (simp add: algebra_simps)
  from round_even_div_le [OF dk this] have r: "r \<le> 2 ^ (149 - k)" by (simp add: r_def)
  have rb: "r \<le> 2 ^ 24" "0 \<le> r"
    using f32_round_sig_bounds [OF n d] by (simp_all add: r_def k_def N_def)
  have "int k \<le> 126" using k by simp
  then have "int k * 2 ^ 23 \<le> 126 * 2 ^ 23" by (intro mult_right_mono) simp_all
  with rb have fin: "int k * 2 ^ 23 + r < 0x7F800000" by simp
  note f = f32_make_fields [OF n d, folded N_def, folded k_def, folded r_def, OF fin]
  show "f32_sign (f32_make s n d) = s" by (rule f)
  show "f32_abs_bits (f32_make s n d) < 0x7F800000" using fin by (simp only: f)
  have "r * 2 ^ k \<le> 2 ^ (149 - k) * 2 ^ k" using r by (intro mult_right_mono) simp_all
  also have "(2::int) ^ (149 - k) * 2 ^ k = 2 ^ 149"
    using k by (simp add: power_add [symmetric])
  finally show "f32_mag (f32_make s n d) \<le> 2 ^ 149" by (simp only: f)
qed

lemma f32_mag_nonneg: "0 \<le> f32_mag w"
  by (simp add: f32_mag_def Let_def f32_abs_bits_def)

lemma f32_mul_finite:
  assumes "f32_abs_bits a < 0x7F800000" and "f32_abs_bits b < 0x7F800000"
  shows "f32_mul a b = f32_make (f32_sign a \<noteq> f32_sign b) (f32_mag a * f32_mag b) (2 ^ 298)"
  using assms by (simp add: f32_mul_def f32_is_nan_def f32_is_inf_def)

lemma f32_of_int_exact:
  assumes "\<bar>i\<bar> < 2 ^ 24"
  shows "f32_mag (f32_of_int i) = \<bar>i\<bar> * 2 ^ 149"
    and "f32_sign (f32_of_int i) = (i < 0)"
    and "f32_abs_bits (f32_of_int i) < 0x7F800000"
proof -
  have e: "\<bar>i\<bar> * 2 ^ 149 = \<bar>i\<bar> * 2 ^ 149 * (1::int)" by simp
  have m: "0 \<le> \<bar>i\<bar>" by simp
  note f = f32_make_exact [OF m assms zero_less_one order_refl e]
  show "f32_mag (f32_of_int i) = \<bar>i\<bar> * 2 ^ 149" unfolding f32_of_int_def by (rule f)
  show "f32_sign (f32_of_int i) = (i < 0)" unfolding f32_of_int_def by (rule f)
  show "f32_abs_bits (f32_of_int i) < 0x7F800000" unfolding f32_of_int_def by (rule f)
qed

lemma f32_val_of_int:
  assumes "\<bar>i\<bar> < 2 ^ 24"
  shows "f32_val (f32_of_int i) = of_int i"
  by (simp add: f32_val_def f32_of_int_exact [OF assms] abs_if)

section \<open>The scale constants and the scaled integers\<close>

lemmas f32_eval =
  f32_of_int_def f32_make_def f32_round_bits_def round_even_div_def Let_def f32_mul_def
  f32_div_def f32_is_nan_def f32_is_inf_def f32_is_zero_def f32_abs_bits_def f32_sign_def
  f32_mag_def f32_signed_bits_def f32_key_def f32_lt_def f32_to_int_def

lemma inv65535_bits: "inv65535 = 0x37800080"
  by (simp add: inv65535_def f32_eval)

lemma inv32768_bits: "inv32768 = 0x38000000"
  by (simp add: inv32768_def f32_eval)

lemma inv32767_bits: "inv32767 = 0x38000100"
  by (simp add: inv32767_def f32_eval)

lemma inv255_bits: "inv255 = 0x3B808081"
  by (simp add: inv255_def f32_eval)

lemma inv128_bits: "inv128 = 0x3C000000"
  by (simp add: inv128_def f32_eval)

lemma inv127_bits: "inv127 = 0x3C010204"
  by (simp add: inv127_def f32_eval)

lemma inv65535_fields:
  "f32_abs_bits inv65535 < 0x7F800000" "f32_sign inv65535 = False"
  "f32_mag inv65535 = 65537 * 2 ^ 117"
  by (simp_all add: inv65535_bits f32_abs_bits_def f32_sign_def f32_mag_def Let_def)

lemma inv32768_fields:
  "f32_abs_bits inv32768 < 0x7F800000" "f32_sign inv32768 = False"
  "f32_mag inv32768 = 2 ^ 134"
  by (simp_all add: inv32768_bits f32_abs_bits_def f32_sign_def f32_mag_def Let_def)

lemma inv128_fields:
  "f32_abs_bits inv128 < 0x7F800000" "f32_sign inv128 = False"
  "f32_mag inv128 = 2 ^ 142"
  by (simp_all add: inv128_bits f32_abs_bits_def f32_sign_def f32_mag_def Let_def)

lemma f32_mul_int_pow2:
  assumes i: "\<bar>i\<bar> < 2 ^ 24" and c: "f32_abs_bits c < 0x7F800000" "f32_sign c = False"
    and t: "f32_mag c = 2 ^ t" "t \<le> 149"
  shows "f32_mag (f32_mul (f32_of_int i) c) = \<bar>i\<bar> * 2 ^ t"
    and "f32_sign (f32_mul (f32_of_int i) c) = (i < 0)"
    and "f32_abs_bits (f32_mul (f32_of_int i) c) < 0x7F800000"
proof -
  note a = f32_of_int_exact [OF i]
  have mul: "f32_mul (f32_of_int i) c = f32_make (i < 0) (\<bar>i\<bar> * 2 ^ 149 * 2 ^ t) (2 ^ 298)"
    using f32_mul_finite [OF a(3) c(1)] by (simp add: a c(2) t(1))
  have e: "\<bar>i\<bar> * 2 ^ 149 * 2 ^ t * 2 ^ 149 = \<bar>i\<bar> * 2 ^ t * (2 ^ 298 :: int)"
    by (simp add: algebra_simps)
  have m: "0 \<le> \<bar>i\<bar>" and d: "0 < (2 ^ 298 :: int)" by simp_all
  note f = f32_make_exact [OF m i d t(2) e]
  show "f32_mag (f32_mul (f32_of_int i) c) = \<bar>i\<bar> * 2 ^ t" unfolding mul by (rule f)
  show "f32_sign (f32_mul (f32_of_int i) c) = (i < 0)" unfolding mul by (rule f)
  show "f32_abs_bits (f32_mul (f32_of_int i) c) < 0x7F800000" unfolding mul by (rule f)
qed

lemma f32_val_mul_int_pow2:
  assumes i: "\<bar>i\<bar> < 2 ^ 24" and c: "f32_abs_bits c < 0x7F800000" "f32_sign c = False"
    and t: "f32_mag c = 2 ^ t" "t \<le> 149"
  shows "f32_val (f32_mul (f32_of_int i) c) = of_int i * 2 ^ t / 2 ^ 149"
  unfolding f32_val_def f32_mul_int_pow2 [OF assms]
  by (simp add: abs_if)

lemma z16_scaled_unit:
  assumes "0 \<le> i" and "i \<le> 65535"
  shows "f32_mag (f32_mul (f32_of_int i) inv65535) \<le> 2 ^ 149"
    and "f32_sign (f32_mul (f32_of_int i) inv65535) = False"
    and "f32_abs_bits (f32_mul (f32_of_int i) inv65535) < 0x7F800000"
proof -
  have i24: "\<bar>i\<bar> < 2 ^ 24" using assms by simp
  note a = f32_of_int_exact [OF i24]
  let ?n = "i * 2 ^ 149 * (65537 * 2 ^ 117)"
  have mul: "f32_mul (f32_of_int i) inv65535 = f32_make False ?n (2 ^ 298)"
    using f32_mul_finite [OF a(3) inv65535_fields(1)] assms(1)
    by (simp only: a inv65535_fields abs_of_nonneg) simp
  have "i * 65537 \<le> 2 ^ 32" using assms by simp
  then have "i * 65537 * 2 ^ 266 \<le> 2 ^ 32 * (2 ^ 266 :: int)"
    by (intro mult_right_mono) simp_all
  moreover have "?n = i * 65537 * 2 ^ 266" by simp
  moreover have "2 ^ 32 * (2 ^ 266 :: int) = 2 ^ 298" by simp
  ultimately have nd: "?n \<le> 2 ^ 298" by (simp only:)
  have n0: "0 \<le> ?n" using assms(1) by simp
  have d: "0 < (2 ^ 298 :: int)" by simp
  note f = f32_make_le_one [OF n0 d nd]
  show "f32_mag (f32_mul (f32_of_int i) inv65535) \<le> 2 ^ 149" unfolding mul by (rule f)
  show "f32_sign (f32_mul (f32_of_int i) inv65535) = False" unfolding mul by (rule f)
  show "f32_abs_bits (f32_mul (f32_of_int i) inv65535) < 0x7F800000" unfolding mul by (rule f)
qed

lemma z16_scaled_val:
  assumes "0 \<le> i" and "i \<le> 65535"
  shows "0 \<le> f32_val (f32_mul (f32_of_int i) inv65535)"
    and "f32_val (f32_mul (f32_of_int i) inv65535) \<le> 1"
proof -
  note f = z16_scaled_unit [OF assms]
  have m0: "0 \<le> f32_mag (f32_mul (f32_of_int i) inv65535)" by (rule f32_mag_nonneg)
  show "0 \<le> f32_val (f32_mul (f32_of_int i) inv65535)"
    using m0 by (simp add: f32_val_def f(2))
  have "rat_of_int (f32_mag (f32_mul (f32_of_int i) inv65535)) \<le> rat_of_int (2 ^ 149)"
    using f(1) by (simp only: of_int_le_iff)
  then show "f32_val (f32_mul (f32_of_int i) inv65535) \<le> 1"
    by (simp add: f32_val_def f(2))
qed

section \<open>The readers\<close>

lemmas dec_fmt_defs =
  DEC_NONE_def DEC_FLOAT_1_def DEC_FLOAT_2_def DEC_FLOAT_3_def DEC_FLOAT_4_def DEC_S8_3_def
  DEC_S16_3_def DEC_U8_1_def DEC_U8_2_def DEC_U8_3_def DEC_U8_4_def DEC_U16_1_def
  DEC_U16_2_def DEC_U16_3_def DEC_U16_4_def

lemma sint8_abs: "\<bar>sint (b :: 8 word)\<bar> \<le> 128"
  using sint_ge [of b] sint_lt [of b] by simp

lemma sint16_abs: "\<bar>sint (s :: 16 word)\<bar> \<le> 32768"
  using sint_ge [of s] sint_lt [of s] by simp

lemma uint16_range: "0 \<le> uint (z :: 16 word) \<and> uint z \<le> 65535"
  using uint_bounded [of z] by simp


lemmas example_defs =
  example_through_def example_transform_def example_layout_def example_memory_def
  example_bytes_def VertexReader_new_def psp_constants_def isThrough_def
  float_layout_def float_memory_def float_through_def bytes_u32_def

lemmas read_defs =
  read_u8_def read_u16_def read_u32_def read_s8_def read_s16_def read_f32_def store_bytes_def


lemma pos_scale_s8:
  fixes b :: "8 word"
  shows "f32_abs_bits (f32_mul (f32_of_int (sint b)) inv128) < 0x7F800000"
    and "f32_val (f32_mul (f32_of_int (sint b)) inv128) = of_int (sint b) / 128"
    and "f32_val (f32_mul (f32_of_int (sint b)) inv128) < 1"
proof -
  have i: "\<bar>sint b\<bar> < 2 ^ 24" using sint8_abs [of b] by simp
  have t: "(142::nat) \<le> 149" by simp
  show "f32_abs_bits (f32_mul (f32_of_int (sint b)) inv128) < 0x7F800000"
    by (rule f32_mul_int_pow2 [OF i inv128_fields t])
  show v: "f32_val (f32_mul (f32_of_int (sint b)) inv128) = of_int (sint b) / 128"
    unfolding f32_val_mul_int_pow2 [OF i inv128_fields t] by simp
  have "sint b < 128" using sint_lt [of b] by simp
  then have "rat_of_int (sint b) < 128" by (simp only: of_int_less_numeral_iff)
  then show "f32_val (f32_mul (f32_of_int (sint b)) inv128) < 1"
    unfolding v by simp
qed

lemma pos_scale_s16:
  fixes s :: "16 word"
  shows "f32_abs_bits (f32_mul (f32_of_int (sint s)) inv32768) < 0x7F800000"
    and "f32_val (f32_mul (f32_of_int (sint s)) inv32768) = of_int (sint s) / 32768"
    and "f32_val (f32_mul (f32_of_int (sint s)) inv32768) < 1"
proof -
  have i: "\<bar>sint s\<bar> < 2 ^ 24" using sint16_abs [of s] by simp
  have t: "(134::nat) \<le> 149" by simp
  show "f32_abs_bits (f32_mul (f32_of_int (sint s)) inv32768) < 0x7F800000"
    by (rule f32_mul_int_pow2 [OF i inv32768_fields t])
  show v: "f32_val (f32_mul (f32_of_int (sint s)) inv32768) = of_int (sint s) / 32768"
    unfolding f32_val_mul_int_pow2 [OF i inv32768_fields t] by simp
  have "sint s < 32768" using sint_lt [of s] by simp
  then have "rat_of_int (sint s) < 32768" by (simp only: of_int_less_numeral_iff)
  then show "f32_val (f32_mul (f32_of_int (sint s)) inv32768) < 1"
    unfolding v by simp
qed

lemma nrm_scale_max:
  "f32_mul (f32_of_int 127) inv127 = f32_of_int 1"
  "f32_mul (f32_of_int 32767) inv32767 = f32_of_int 1"
  "f32_val (f32_of_int 1) = 1"
  by (simp_all add: inv127_bits inv32767_bits f32_eval f32_val_def)


lemma ReadColor1_length: "length (fst (ReadColor1 key mem r rep)) = 3"
  by (simp add: ReadColor1_def Let_def)

lemma read_u32_cong:
  assumes "mem' a = mem a" and "mem' (a + 1) = mem (a + 1)"
    and "mem' (a + 2) = mem (a + 2)" and "mem' (a + 3) = mem (a + 3)"
  shows "read_u32 mem' a = read_u32 mem a"
  using assms by (simp add: read_u32_def)

lemma ReadColor1_alpha_unread:
  assumes "\<forall>a. a \<notin> color1_alpha_addrs r \<longrightarrow> mem' a = mem a"
  shows "ReadColor1 key mem' r rep = ReadColor1 key mem r rep"
proof -
  let ?p = "rd_data r + uint (c1off (rd_decFmt r))"
  have ne: "DEC_U8_4 \<noteq> DEC_FLOAT_4" by (simp add: dec_fmt_defs)
  consider (u8) "c1fmt (rd_decFmt r) = DEC_U8_4" | (f4) "c1fmt (rd_decFmt r) = DEC_FLOAT_4"
    | (other) "c1fmt (rd_decFmt r) \<noteq> DEC_U8_4" "c1fmt (rd_decFmt r) \<noteq> DEC_FLOAT_4"
    by blast
  then show ?thesis
  proof cases
    case u8
    then have al: "color1_alpha_addrs r = {?p + 3}"
      by (simp add: color1_alpha_addrs_def Let_def)
    have "mem' (?p + k) = mem (?p + k)" if "k \<in> {0, 1, 2}" for k
      using assms that unfolding al by auto
    then have "mem' ?p = mem ?p" "mem' (?p + 1) = mem (?p + 1)" "mem' (?p + 2) = mem (?p + 2)"
      by force+
    then show ?thesis using u8 by (simp add: ReadColor1_def Let_def read_u8_def)
  next
    case f4
    then have al: "color1_alpha_addrs r = {?p + 12, ?p + 13, ?p + 14, ?p + 15}"
      using ne by (simp add: color1_alpha_addrs_def Let_def)
    have eq: "mem' (?p + k) = mem (?p + k)" if "0 \<le> k" "k < 12" for k
      using assms that unfolding al by auto
    have e: "mem' (?p + i + j) = mem (?p + i + j)" if "i \<in> {0, 4, 8}" "j \<in> {0, 1, 2, 3}" for i j
      using eq [of "i + j"] that by (auto simp: add.assoc)
    have "read_f32 mem' (?p + 0) = read_f32 mem (?p + 0)"
      unfolding read_f32_def using e [of 0 0] e [of 0 1] e [of 0 2] e [of 0 3]
      by (intro read_u32_cong) simp_all
    moreover have "read_f32 mem' (?p + 4) = read_f32 mem (?p + 4)"
      unfolding read_f32_def using e [of 4 0] e [of 4 1] e [of 4 2] e [of 4 3]
      by (intro read_u32_cong) simp_all
    moreover have "read_f32 mem' (?p + 8) = read_f32 mem (?p + 8)"
      unfolding read_f32_def using e [of 8 0] e [of 8 1] e [of 8 2] e [of 8 3]
      by (intro read_u32_cong) simp_all
    ultimately show ?thesis using f4 ne by (simp add: ReadColor1_def Let_def)
  next
    case other
    then show ?thesis by (simp add: ReadColor1_def Let_def)
  qed
qed


lemma float_clamp_eval:
  "f32_to_int 0xC2C80000 = Some (- 100)"
  "f32_to_int 0x4788B800 = Some 70000"
  "f32_mul 0xC2C80000 0x37800080 = 0xBAC800C8"
  "f32_mul 0x4788B800 0x37800080 = 0x3F88B889"
  "f32_of_int 1 = 0x3F800000" "f32_of_int 0 = 0" "f32_of_int 65535 = 0x477FFF00"
  "f32_of_int (- 100) = 0xC2C80000" "f32_of_int 70000 = 0x4788B800"
  by (simp_all add: f32_eval)

lemma float_clamp_cmp:
  "\<not> f32_lt 0x3F800000 0xBAC800C8" "f32_lt 0xBAC800C8 0"
  "f32_lt 0x3F800000 0x3F88B889"
  "\<not> f32_lt 0x477FFF00 0xC2C80000" "f32_lt 0xC2C80000 0"
  "f32_lt 0x477FFF00 0x4788B800"
  by (simp_all add: f32_eval)

lemma z16_scale_eval:
  "f32_mul 0x477F9C00 0x37800080 = 0x3F7F9D00"
  "f32_mul 0x458B8000 0x37800080 = 0x3D8B808C"
  "f32_of_int 65436 = 0x477F9C00"
  "f32_of_int 4464 = 0x458B8000"
  by (simp_all add: f32_eval)

lemma f32_val_eval:
  "f32_val 0xC2C80000 = - 100" "f32_val 0x4788B800 = 70000" "f32_val 0x3F800000 = 1"
  "f32_val 0x477FFF00 = 65535" "f32_val 0 = 0" "f32_val 0x3F7F9D00 = 65437 / 65536"
  "f32_val 0x477F9C00 = 65436" "f32_val 0x3D8B808C = 2285603 / 33554432"
  "f32_val 0x458B8000 = 4464"
  by (simp_all add: f32_val_def f32_eval)


section \<open>Diagnostics are raised once; decoding goes on\<close>

lemma report_once_inv:
  assumes "reporting_inv key rep"
  shows "reporting_inv key (ERROR_LOG_REPORT_ONCE key n v rep)"
proof (cases "key n v \<in> set (reported rep)")
  case True
  then show ?thesis using assms by (simp add: ERROR_LOG_REPORT_ONCE_def)
next
  case False
  have sub: "\<forall>e \<in> set (emitted rep). (\<lambda>(n, v). key n v) e \<in> set (reported rep)"
    using assms by (auto simp: reporting_inv_def list_all_iff)
  then have fresh: "key n v \<notin> (\<lambda>(n, v). key n v) ` set (emitted rep)"
    using False by auto
  have "list_all (\<lambda>(n', v'). key n' v' \<in> set (key n v # reported rep)) (emitted rep)"
    using sub by (auto simp: list_all_iff)
  then show ?thesis
    using assms False fresh
    by (simp add: ERROR_LOG_REPORT_ONCE_def reporting_inv_def)
qed

lemma no_reports_inv: "reporting_inv key no_reports"
  by (simp add: reporting_inv_def no_reports_def)

lemma call_inv:
  assumes "reporting_inv key rep"
  shows "reporting_inv key (snd (snd (call key gc mem c (r, rep))))"
  using assms
  by (cases c)
    (auto simp: ReadPos_def ReadPosThroughZ16_def ReadNrm_def ReadUV_def ReadColor0_def
       ReadColor1_def Let_def report_once_inv split: option.splits)

lemma calls_inv:
  assumes "reporting_inv key (snd s)"
  shows "reporting_inv key (snd (snd (calls key gc mem cs s)))"
  using assms
proof (induction cs arbitrary: s)
  case Nil
  then show ?case by simp
next
  case (Cons c cs)
  obtain r rep where s: "s = (r, rep)" by (cases s)
  obtain out r' rep' where c: "call key gc mem c (r, rep) = (out, r', rep')"
    by (cases "call key gc mem c (r, rep)")
  have "reporting_inv key rep'"
    using call_inv [of key rep gc mem c r] Cons.prems by (simp add: s c)
  then have "reporting_inv key (snd (snd (calls key gc mem cs (r', rep'))))"
    using Cons.IH [of "(r', rep')"] by simp
  then show ?case by (simp add: s c case_prod_beta)
qed

lemma call_indep:
  "fst (call key gc mem c (r, rep)) = fst (call key gc mem c (r, rep'))"
  "fst (snd (call key gc mem c (r, rep))) = fst (snd (call key gc mem c (r, rep')))"
  by (cases c;
      simp add: ReadPos_def ReadPosThroughZ16_def ReadNrm_def ReadUV_def ReadColor0_def
        ReadColor1_def Let_def split: option.splits)+

lemma calls_indep:
  "fst (calls key gc mem cs (r, rep)) = fst (calls key gc mem cs (r, rep'))
   \<and> fst (snd (calls key gc mem cs (r, rep))) = fst (snd (calls key gc mem cs (r, rep')))"
proof (induction cs arbitrary: r rep rep')
  case Nil
  show ?case by simp
next
  case (Cons c cs)
  obtain o1 r1 p1 where c1: "call key gc mem c (r, rep) = (o1, r1, p1)"
    by (cases "call key gc mem c (r, rep)")
  obtain o2 r2 p2 where c2: "call key gc mem c (r, rep') = (o2, r2, p2)"
    by (cases "call key gc mem c (r, rep')")
  have e: "o1 = o2" "r1 = r2"
    using call_indep [of key gc mem c r rep rep'] by (simp_all add: c1 c2)
  show ?case
    using Cons.IH [of r1 p1 p2] by (simp add: c1 c2 e case_prod_beta)
qed

lemma call_unsupported:
  assumes "unsupported c r"
  shows "fst (call key gc mem c (r, rep)) = Some (zero_fill c)"
    and "fst (snd (call key gc mem c (r, rep))) = r"
  using assms
  by (cases c;
      simp add: ReadPos_def ReadPosThroughZ16_def ReadNrm_def ReadUV_def ReadColor0_def
        ReadColor1_def Let_def)+

lemma calls_after_unsupported:
  assumes "unsupported c r"
  shows "fst (calls key gc mem (c # cs) (r, rep)) =
           Some (zero_fill c) # fst (calls key gc mem cs (r, rep))"
proof -
  obtain out r' rep' where c: "call key gc mem c (r, rep) = (out, r', rep')"
    by (cases "call key gc mem c (r, rep)")
  have e: "out = Some (zero_fill c)" "r' = r"
    using call_unsupported [OF assms, of key gc mem rep] by (simp_all add: c)
  show ?thesis
    using calls_indep [of key gc mem cs r rep' rep] by (simp add: c e case_prod_beta)
qed

lemma example_floats:
  "f32_of_int 10 = 0x41200000" "f32_of_int (- 3) = 0xC0400000"
  "f32_of_int 32767 = 0x46FFFE00" "f32_of_int (- 32768) = 0xC7000000"
  by (simp_all add: f32_eval)


section \<open>\<^verbatim>\<open>RoundUp4\<close>\<close>

text \<open>
  On a 32-bit \<^verbatim>\<open>int\<close>, \<^verbatim>\<open>RoundUp4 x\<close> is the least multiple of four that is at least
  \<open>x\<close> for every \<open>x\<close> from \<open>0\<close> to \<open>INT_MAX - 3\<close>; above that \<open>x + 3\<close> overflows.
\<close>

lemma and_not_3: "(w :: 32 word) AND NOT 3 = push_bit 2 (drop_bit 2 w)"
proof -
  have "(3 :: 32 word) = mask 2" by (simp add: mask_eq_exp_minus_1)
  have s: "2 \<le> n \<Longrightarrow> Suc (Suc (n - 2)) = n" for n :: nat by simp
  show ?thesis
    unfolding \<open>3 = mask 2\<close> by (rule bit_eqI) (auto simp: bit_simps s not_less)
qed

lemma uint_and_not_3: "uint ((w :: 32 word) AND NOT 3) = uint w div 4 * 4"
proof -
  have b: "uint w < 2 ^ 32" using uint_bounded [of w] by simp
  have "0 \<le> uint w" by simp
  then have "0 \<le> uint w div 4 * 4" by (simp add: pos_imp_zdiv_nonneg_iff)
  moreover have "uint w div 4 * 4 \<le> uint w" by simp
  ultimately have m: "(uint w div 4 * 4) mod 2 ^ 32 = uint w div 4 * 4"
    using b by simp
  have "uint (push_bit 2 (drop_bit 2 w)) = (uint w div 4 * 4) mod 2 ^ 32"
    by (simp add: push_bit_eq_mult drop_bit_eq_div uint_word_ariths uint_div_distrib)
  then show ?thesis by (simp only: and_not_3 m)
qed

lemma RoundUp4_uint:
  assumes "uint x \<le> 2 ^ 32 - 4"
  shows "uint (RoundUp4 x) = (uint x + 3) div 4 * 4"
proof -
  have "uint (x + 3) = uint x + 3"
    using assms by (simp add: uint_word_ariths)
  then show ?thesis unfolding RoundUp4_def uint_and_not_3 by (simp only:)
qed

lemma sint32:
  "sint (w :: 32 word) = (if uint w < 2 ^ 31 then uint w else uint w - 2 ^ 32)"
proof -
  have b: "0 \<le> uint w" "uint w < 2 ^ 32" using uint_bounded [of w] by simp_all
  have "sint w = signed_take_bit 31 (uint w)" by (simp add: sint_uint)
  also have "\<dots> = take_bit 32 (uint w + 2 ^ 31) - 2 ^ 31"
    by (simp add: signed_take_bit_eq_take_bit_shift)
  also have "\<dots> = (uint w + 2 ^ 31) mod 2 ^ 32 - 2 ^ 31"
    by (simp add: take_bit_eq_mod)
  also have "\<dots> = (if uint w < 2 ^ 31 then uint w else uint w - 2 ^ 32)"
  proof (cases "uint w < 2 ^ 31")
    case True
    then have "(uint w + 2 ^ 31) mod 2 ^ 32 = uint w + 2 ^ 31" using b by simp
    then show ?thesis using True by simp
  next
    case False
    then have "(uint w + 2 ^ 31) mod 2 ^ 32 = uint w + 2 ^ 31 - 2 ^ 32"
      using b by (simp add: mod_pos_geq)
    then show ?thesis using False by simp
  qed
  finally show ?thesis .
qed

lemma RoundUp4_sint:
  assumes "0 \<le> sint x" and "sint x \<le> 2 ^ 31 - 4"
  shows "sint (RoundUp4 x) = (sint x + 3) div 4 * 4"
proof -
  have ux: "uint x = sint x" "uint x < 2 ^ 31"
    using assms(1) uint_bounded [of x] by (simp_all add: sint32 split: if_splits)
  have "uint x \<le> 2 ^ 32 - 4" using ux assms(2) by simp
  then have r: "uint (RoundUp4 x) = (sint x + 3) div 4 * 4"
    using RoundUp4_uint [of x] by (simp add: ux)
  have "(sint x + 3) div 4 * 4 \<le> sint x + 3" by simp
  then have "uint (RoundUp4 x) < 2 ^ 31" using r assms(2) by simp
  then show ?thesis using r by (simp add: sint32)
qed

lemma RoundUp4_least:
  assumes "0 \<le> sint x" and "sint x \<le> 2 ^ 31 - 4"
  shows "4 dvd sint (RoundUp4 x)" and "sint x \<le> sint (RoundUp4 x)"
    and "4 dvd m \<Longrightarrow> sint x \<le> m \<Longrightarrow> sint (RoundUp4 x) \<le> m"
proof -
  note r = RoundUp4_sint [OF assms]
  show "4 dvd sint (RoundUp4 x)" unfolding r by simp
  show "sint x \<le> sint (RoundUp4 x)" unfolding r by presburger
  show "sint (RoundUp4 x) \<le> m" if "4 dvd m" "sint x \<le> m"
    unfolding r using that by presburger
qed

lemma RoundUp4_wraps:
  "0 \<le> sint (0x7FFFFFFF :: 32 word) \<and> sint (0x7FFFFFFF :: 32 word) = 2147483647
   \<and> sint (RoundUp4 0x7FFFFFFF) = - 2147483648
   \<and> sint (RoundUp4 0x7FFFFFFF) < sint (0x7FFFFFFF :: 32 word)"
  by (simp add: RoundUp4_def)


section \<open>Comparison of floats and the clamp of the through-mode Z\<close>

lemma f32_abs_bits_nonneg: "0 \<le> f32_abs_bits w"
  by (simp add: f32_abs_bits_def)

lemma f32_mag_strict_mono:
  assumes lt: "f32_abs_bits a < f32_abs_bits b"
  shows "f32_mag a < f32_mag b"
proof -
  define b1 b2 where "b1 = f32_abs_bits a" and "b2 = f32_abs_bits b"
  define E1 E2 where "E1 = b1 div 2 ^ 23" and "E2 = b2 div 2 ^ 23"
  define M1 M2 where "M1 = b1 mod 2 ^ 23" and "M2 = b2 mod 2 ^ 23"
  have b0: "0 \<le> b1" "b1 < b2" using lt by (simp_all add: b1_def b2_def f32_abs_bits_nonneg)
  have E0: "0 \<le> E1" "E1 \<le> E2"
    using b0 by (simp_all add: E1_def E2_def pos_imp_zdiv_nonneg_iff zdiv_mono1)
  have M: "0 \<le> M1" "M1 < 2 ^ 23" "0 \<le> M2" "M2 < 2 ^ 23"
    by (simp_all add: M1_def M2_def)
  have d1: "b1 = E1 * 2 ^ 23 + M1" and d2: "b2 = E2 * 2 ^ 23 + M2"
    by (simp_all add: E1_def E2_def M1_def M2_def)
  have m1: "f32_mag a = (if E1 = 0 then b1 else (2 ^ 23 + M1) * 2 ^ (nat E1 - 1))"
    by (simp add: f32_mag_def Let_def b1_def E1_def M1_def)
  have m2: "f32_mag b = (if E2 = 0 then b2 else (2 ^ 23 + M2) * 2 ^ (nat E2 - 1))"
    by (simp add: f32_mag_def Let_def b2_def E2_def M2_def)
  show ?thesis
  proof (cases "E1 = E2")
    case True
    then have "M1 < M2" using b0 d1 d2 by simp
    then have "(2 ^ 23 + M1) * 2 ^ (nat E2 - 1) < (2 ^ 23 + M2) * 2 ^ (nat E2 - 1)"
      by (intro mult_strict_right_mono) simp_all
    then show ?thesis using True b0 by (simp add: m1 m2)
  next
    case False
    then have lt12: "E1 < E2" using E0 by simp
    then have E2: "E2 \<noteq> 0" "1 \<le> E2" using E0 by simp_all
    have low: "2 ^ 23 * 2 ^ (nat E2 - 1) \<le> f32_mag b"
    proof -
      have "(2 ^ 23 :: int) * 2 ^ (nat E2 - 1) \<le> (2 ^ 23 + M2) * 2 ^ (nat E2 - 1)"
        using M by (intro mult_right_mono) simp_all
      then show ?thesis using E2 by (simp add: m2)
    qed
    show ?thesis
    proof (cases "E1 = 0")
      case True
      then have "b1 = M1" using d1 by simp
      then have "f32_mag a < 2 ^ 23" using True M by (simp add: m1)
      also have "(2 ^ 23 :: int) = 2 ^ 23 * 2 ^ 0" by simp
      also have "\<dots> \<le> 2 ^ 23 * 2 ^ (nat E2 - 1)"
        by (intro mult_left_mono power_increasing) simp_all
      finally show ?thesis using low by linarith
    next
      case False
      then have E1: "1 \<le> E1" using E0 by simp
      have "f32_mag a < 2 ^ 24 * 2 ^ (nat E1 - 1)"
      proof -
        have "(2 ^ 23 + M1) * 2 ^ (nat E1 - 1) < 2 ^ 24 * 2 ^ (nat E1 - 1)"
          using M by (intro mult_strict_right_mono) simp_all
        then show ?thesis using False by (simp add: m1)
      qed
      also have "(2 ^ 24 :: int) * 2 ^ (nat E1 - 1) = 2 ^ 23 * 2 ^ (Suc (nat E1 - 1))"
        by simp
      also have "\<dots> \<le> 2 ^ 23 * 2 ^ (nat E2 - 1)"
      proof -
        have "Suc (nat E1 - 1) \<le> nat E2 - 1" using E1 lt12 by simp
        then have "(2 :: int) ^ Suc (nat E1 - 1) \<le> 2 ^ (nat E2 - 1)"
          by (intro power_increasing) simp_all
        then show ?thesis by (intro mult_left_mono) simp_all
      qed
      finally show ?thesis using low by linarith
    qed
  qed
qed

lemma f32_lt_mag:
  assumes "\<not> f32_sign a" and "\<not> f32_sign b"
    and "f32_abs_bits a < 0x7F800000" and "f32_abs_bits b < 0x7F800000"
  shows "f32_lt a b = (f32_mag a < f32_mag b)"
proof (cases "f32_abs_bits a < f32_abs_bits b")
  case True
  then show ?thesis
    using assms f32_mag_strict_mono [OF True]
    by (simp add: f32_lt_def f32_key_def f32_is_nan_def)
next
  case False
  then have "f32_abs_bits b < f32_abs_bits a \<or> f32_abs_bits b = f32_abs_bits a" by linarith
  then have "f32_mag b \<le> f32_mag a"
  proof
    assume "f32_abs_bits b < f32_abs_bits a"
    then show ?thesis using f32_mag_strict_mono [of b a] by simp
  next
    assume "f32_abs_bits b = f32_abs_bits a"
    then show ?thesis by (simp add: f32_mag_def)
  qed
  then show ?thesis
    using assms False by (simp add: f32_lt_def f32_key_def f32_is_nan_def)
qed

lemma f32_to_int_of_int:
  assumes "\<bar>i\<bar> < 2 ^ 24"
  shows "f32_to_int (f32_of_int i) = Some i"
proof -
  note f = f32_of_int_exact [OF assms]
  have n: "\<not> f32_is_nan (f32_of_int i)" "\<not> f32_is_inf (f32_of_int i)"
    using f(3) by (simp_all add: f32_is_nan_def f32_is_inf_def)
  have q: "f32_mag (f32_of_int i) div 2 ^ 149 = \<bar>i\<bar>" unfolding f(1) by simp
  have r: "- (2 ^ 31) \<le> i" "i < 2 ^ 31" using assms by simp_all
  show ?thesis
    unfolding f32_to_int_def Let_def q f(2) using n r by (simp add: abs_if)
qed

lemma small_int_floats:
  "f32_mag (f32_of_int 0) = 0" "f32_mag (f32_of_int 1) = 2 ^ 149"
  "f32_mag (f32_of_int 65535) = 65535 * 2 ^ 149"
  "\<not> f32_sign (f32_of_int 0)" "\<not> f32_sign (f32_of_int 1)" "\<not> f32_sign (f32_of_int 65535)"
  "f32_abs_bits (f32_of_int 0) < 0x7F800000" "f32_abs_bits (f32_of_int 1) < 0x7F800000"
  "f32_abs_bits (f32_of_int 65535) < 0x7F800000"
  using f32_of_int_exact [of 0] f32_of_int_exact [of 1] f32_of_int_exact [of 65535]
  by simp_all

lemma z16_clamp_unit:
  assumes "0 \<le> i" and "i \<le> 65535"
  shows "\<not> f32_lt (f32_of_int 1) (f32_mul (f32_of_int i) inv65535)"
    and "\<not> f32_lt (f32_mul (f32_of_int i) inv65535) (f32_of_int 0)"
proof -
  note z = z16_scaled_unit [OF assms]
  have s: "\<not> f32_sign (f32_mul (f32_of_int i) inv65535)" using z(2) by simp
  show "\<not> f32_lt (f32_of_int 1) (f32_mul (f32_of_int i) inv65535)"
    unfolding f32_lt_mag [OF small_int_floats(5) s small_int_floats(8) z(3)]
    using z(1) by (simp add: small_int_floats)
  show "\<not> f32_lt (f32_mul (f32_of_int i) inv65535) (f32_of_int 0)"
    unfolding f32_lt_mag [OF s small_int_floats(4) z(3) small_int_floats(7)]
    using f32_mag_nonneg [of "f32_mul (f32_of_int i) inv65535"] by (simp add: small_int_floats)
qed

lemma z16_clamp_raw:
  assumes "0 \<le> i" and "i \<le> 65535"
  shows "\<not> f32_lt (f32_of_int 65535) (f32_of_int i)"
    and "\<not> f32_lt (f32_of_int i) (f32_of_int 0)"
proof -
  have i24: "\<bar>i\<bar> < 2 ^ 24" using assms by simp
  note f = f32_of_int_exact [OF i24]
  have s: "\<not> f32_sign (f32_of_int i)" using f(2) assms by simp
  have m: "f32_mag (f32_of_int i) = i * 2 ^ 149" using f(1) assms by simp
  have "i * 2 ^ 149 \<le> 65535 * (2 ^ 149 :: int)"
    using assms by (intro mult_right_mono) simp_all
  then show "\<not> f32_lt (f32_of_int 65535) (f32_of_int i)"
    unfolding f32_lt_mag [OF small_int_floats(6) s small_int_floats(9) f(3)]
    by (simp only: m small_int_floats not_less)
  have "0 \<le> i * (2 ^ 149 :: int)" using assms by simp
  then show "\<not> f32_lt (f32_of_int i) (f32_of_int 0)"
    unfolding f32_lt_mag [OF s small_int_floats(4) f(3) small_int_floats(7)]
    by (simp only: m small_int_floats not_less)
qed


section \<open>The planned pipeline\<close>

lemmas slot_step_defs =
  weights_step_def texcoord_step_def color_step_def normal_step_def position_step_def

lemma Plan_length: "length (Plan d opts) \<le> 5"
  by (simp add: Plan_def slot_step_defs)

lemma Plan_slots_distinct: "distinct (map step_slot (Plan d opts))"
  by (simp add: Plan_def slot_step_defs)

lemma push_step_pipeline:
  assumes "0 \<le> vd_numSteps dec" and "vd_numSteps dec < 5"
  shows "\<exists>dec'. push_step s dec = Some dec' \<and> vd_numSteps dec' = vd_numSteps dec + 1
           \<and> pipeline dec' = pipeline dec @ [Some s]"
proof -
  let ?n = "nat (vd_numSteps dec)"
  let ?dec' = "dec\<lparr>vd_steps := (vd_steps dec)(?n := Some s), vd_numSteps := vd_numSteps dec + 1\<rparr>"
  have p: "push_step s dec = Some ?dec'" using assms by (simp add: push_step_def)
  have n: "nat (vd_numSteps dec + 1) = Suc ?n" using assms(1) by simp
  have "pipeline ?dec' = map ((vd_steps dec)(?n := Some s)) [0 ..< Suc ?n]"
    by (simp add: pipeline_def n)
  also have "\<dots> = map (vd_steps dec) [0 ..< ?n] @ [Some s]" by simp
  finally have "pipeline ?dec' = pipeline dec @ [Some s]" by (simp add: pipeline_def)
  then show ?thesis using p by simp
qed

lemma push_all_pipeline:
  assumes "0 \<le> vd_numSteps dec" and "vd_numSteps dec + int (length ss) \<le> 5"
  shows "\<exists>dec'. push_all ss dec = Some dec'
           \<and> vd_numSteps dec' = vd_numSteps dec + int (length ss)
           \<and> pipeline dec' = pipeline dec @ map Some ss"
  using assms
proof (induction ss arbitrary: dec)
  case Nil
  then show ?case by simp
next
  case (Cons s ss)
  have lt: "vd_numSteps dec < 5" using Cons.prems by simp
  from push_step_pipeline [OF Cons.prems(1) lt, of s]
  obtain dec1 where d1: "push_step s dec = Some dec1"
    "vd_numSteps dec1 = vd_numSteps dec + 1" "pipeline dec1 = pipeline dec @ [Some s]"
    by blast
  have "0 \<le> vd_numSteps dec1" "vd_numSteps dec1 + int (length ss) \<le> 5"
    using Cons.prems d1(2) by simp_all
  from Cons.IH [OF this]
  obtain dec' where d': "push_all ss dec1 = Some dec'"
    "vd_numSteps dec' = vd_numSteps dec1 + int (length ss)"
    "pipeline dec' = pipeline dec1 @ map Some ss"
    by blast
  show ?case using d1 d' by simp
qed

lemma SetVertexType_pipeline:
  "\<exists>dec'. SetVertexType layout d opts dec = Some dec'
     \<and> vd_numSteps dec' = int (length (Plan d opts))
     \<and> pipeline dec' = map Some (Plan d opts)"
proof -
  let ?dec0 = "dec\<lparr>vd_numSteps := 0, vd_decFmt := layout d opts,
            vd_throughmode := through_mode d, vd_morphcount := morph_count d,
            vd_nweights := weight_count d\<rparr>"
  have a: "0 \<le> vd_numSteps ?dec0" by simp
  have b: "vd_numSteps ?dec0 + int (length (Plan d opts)) \<le> 5"
    using Plan_length [of d opts] by simp
  have p0: "pipeline ?dec0 = []" by (simp add: pipeline_def)
  from push_all_pipeline [OF a b] show ?thesis
    unfolding SetVertexType_def by (simp add: p0)
qed

lemma distinct_map_Some: "distinct ys \<Longrightarrow> distinct (map Some ys)"
  by (simp add: distinct_map inj_on_def)

lemma steps_inv_of_plan:
  assumes "vd_numSteps dec' = int (length (Plan d opts))"
    and "pipeline dec' = map Some (Plan d opts)"
  shows "steps_inv dec'"
proof -
  have "map (map_option step_slot) (pipeline dec') = map Some (map step_slot (Plan d opts))"
    by (simp add: assms(2))
  moreover have "distinct (map Some (map step_slot (Plan d opts)))"
    using Plan_slots_distinct [of d opts] by (rule distinct_map_Some)
  ultimately have "distinct (map (map_option step_slot) (pipeline dec'))" by (simp only:)
  moreover have "None \<notin> set (pipeline dec')" by (auto simp: assms(2))
  ultimately show ?thesis
    using Plan_length [of d opts] by (simp add: steps_inv_def assms(1))
qed

lemma DecodeVerts_steps_inv:
  "steps_inv (DecodeVerts_decoder decoded' ptr' dec) = steps_inv dec"
  by (simp add: steps_inv_def pipeline_def DecodeVerts_decoder_def)


text \<open>
  Claim C5. An \<^verbatim>\<open>IndexConverter\<close> constructed from a vertex type whose index width
  tag is "none" maps every position \<open>i\<close> to itself; one constructed with the 8-, 16- or
  32-bit tag returns the \<open>i\<close>-th entry of the index buffer its pointer addresses, read
  at that width (zero-extended to 32 bits).
\<close>

theorem convert_index_width:
  assumes "idx_tags_distinct gc"
  shows "(vertType AND GE_VTYPE_IDX_MASK gc = GE_VTYPE_IDX_NONE gc \<longrightarrow>
            convert gc mem (IndexConverter_new gc vertType p) i = i)
       \<and> (vertType AND GE_VTYPE_IDX_MASK gc = GE_VTYPE_IDX_8BIT gc \<and> unat i < length es8 \<longrightarrow>
            convert gc (store_bytes p (index_bytes8 es8) mem) (IndexConverter_new gc vertType p) i
              = ucast (es8 ! unat i))
       \<and> (vertType AND GE_VTYPE_IDX_MASK gc = GE_VTYPE_IDX_16BIT gc \<and> unat i < length es16 \<longrightarrow>
            convert gc (store_bytes p (index_bytes16 es16) mem) (IndexConverter_new gc vertType p) i
              = ucast (es16 ! unat i))
       \<and> (vertType AND GE_VTYPE_IDX_MASK gc = GE_VTYPE_IDX_32BIT gc \<and> unat i < length es32 \<longrightarrow>
            convert gc (store_bytes p (index_bytes32 es32) mem) (IndexConverter_new gc vertType p) i
              = es32 ! unat i)"
  using assms
  by (auto simp: idx_tags_distinct_def convert_def IndexConverter_new_def
        read_u8_stored read_u16_stored read_u32_stored)

theorem convert_index_width_witness:
  "idx_tags_distinct psp_constants
   \<and> convert psp_constants (\<lambda>a. 0) (IndexConverter_new psp_constants 0x0000011F 64) 7 = 7
   \<and> convert psp_constants (store_bytes 64 (index_bytes8 [5, 2, 9, 2]) (\<lambda>a. 0))
        (IndexConverter_new psp_constants 0x0000091F 64) 2 = 9
   \<and> convert psp_constants (store_bytes 64 (index_bytes16 [5, 2, 0x1234, 2]) (\<lambda>a. 0))
        (IndexConverter_new psp_constants 0x0000111F 64) 2 = 0x1234
   \<and> convert psp_constants (store_bytes 64 (index_bytes32 [5, 2, 0x12345678, 2]) (\<lambda>a. 0))
        (IndexConverter_new psp_constants 0x0000191F 64) 2 = 0x12345678"
proof -
  have d: "idx_tags_distinct psp_constants"
    by (simp add: idx_tags_distinct_def psp_constants_def)
  show ?thesis
    using d
      convert_index_width [OF d, where vertType = "0x0000011F" and mem = "(\<lambda>a. 0)" and p = 64
        and i = 7 and ?es8.0 = "[]" and ?es16.0 = "[]" and ?es32.0 = "[]"]
      convert_index_width [OF d, where vertType = "0x0000091F" and mem = "(\<lambda>a. 0)" and p = 64
        and i = 2 and ?es8.0 = "[5, 2, 9, 2]" and ?es16.0 = "[]" and ?es32.0 = "[]"]
      convert_index_width [OF d, where vertType = "0x0000111F" and mem = "(\<lambda>a. 0)" and p = 64
        and i = 2 and ?es8.0 = "[]" and ?es16.0 = "[5, 2, 0x1234, 2]" and ?es32.0 = "[]"]
      convert_index_width [OF d, where vertType = "0x0000191F" and mem = "(\<lambda>a. 0)" and p = 64
        and i = 2 and ?es8.0 = "[]" and ?es16.0 = "[]" and ?es32.0 = "[5, 2, 0x12345678, 2]"]
    by (simp add: psp_constants_def)
qed


text \<open>
  Claim C8. \<^verbatim>\<open>convert\<close> never fails on an index width tag outside the three
  supported ones: whatever \<^verbatim>\<open>indexType\<close> holds (the "none" tag or any other
  value), the \<^verbatim>\<open>default\<close> branch returns the position unchanged, exactly as
  unindexed drawing does.
\<close>

theorem convert_default_identity:
  "indexType ic \<noteq> GE_VTYPE_IDX_8BIT gc \<Longrightarrow> indexType ic \<noteq> GE_VTYPE_IDX_16BIT gc \<Longrightarrow>
   indexType ic \<noteq> GE_VTYPE_IDX_32BIT gc \<Longrightarrow> convert gc mem ic i = i"
  by (simp add: convert_def)

theorem convert_default_identity_witness:
  "convert psp_constants (\<lambda>a. 0xFF) \<lparr>indices = 64, indexType = 0xDEAD0000\<rparr> 41 = 41
   \<and> convert psp_constants (\<lambda>a. 0xFF) (IndexConverter_new psp_constants 0x0000011F 64) 41 = 41"
  using convert_default_identity [of "\<lparr>indices = 64, indexType = 0xDEAD0000\<rparr>" psp_constants "(\<lambda>a. 0xFF)" 41]
    convert_default_identity [of "IndexConverter_new psp_constants 0x0000011F 64" psp_constants "(\<lambda>a. 0xFF)" 41]
  by (simp add: psp_constants_def IndexConverter_new_def)


text \<open>
  Claim C3. \<^verbatim>\<open>ReadPos\<close> and \<^verbatim>\<open>ReadPosThroughZ16\<close> are two readers of the position.
  A through-mode vertex carries a 16-bit Z in two formats. In the signed-16 format Z is the
  stored unsigned 16-bit value \<open>z\<close>, and X and Y are the signed 16-bit values as floats. In
  the float format Z is an integer passed in a float, \<open>z = (int) pos[2]\<close>, here within
  \<open>[0, 65535]\<close>, and X and Y are the stored floats. In both formats the two readers return
  the same X and Y, \<^verbatim>\<open>ReadPos\<close> returns Z as the float product \<open>z * (1.0f / 65535.0f)\<close>,
  a finite float in \<open>[0, 1]\<close>, and \<^verbatim>\<open>ReadPosThroughZ16\<close> returns Z as the float \<open>z\<close>
  itself, in \<open>[0, 65535]\<close>: the clamps of the float format leave both values as they are.
  Every 16-bit \<open>z\<close>, stored as a float, is read back by the cast as \<open>z\<close>.
\<close>

theorem through_z16_readers:
  assumes thr: "isThrough gc r"
  shows "(posfmt (rd_decFmt r) = DEC_S16_3 \<longrightarrow>
           fst (ReadPos key gc mem r rep) =
             Some [f32_of_int (read_s16 mem (rd_data r + uint (posoff (rd_decFmt r)))),
                   f32_of_int (read_s16 mem (rd_data r + uint (posoff (rd_decFmt r)) + 2)),
                   f32_mul (f32_of_int (uint (read_u16 mem (rd_data r + uint (posoff (rd_decFmt r)) + 4))))
                     (f32_div (f32_of_int 1) (f32_of_int 65535))]
         \<and> fst (ReadPosThroughZ16 key gc mem r rep) =
             Some [f32_of_int (read_s16 mem (rd_data r + uint (posoff (rd_decFmt r)))),
                   f32_of_int (read_s16 mem (rd_data r + uint (posoff (rd_decFmt r)) + 2)),
                   f32_of_int (uint (read_u16 mem (rd_data r + uint (posoff (rd_decFmt r)) + 4)))])
       \<and> (posfmt (rd_decFmt r) = DEC_FLOAT_3
          \<and> f32_to_int (read_f32 mem (rd_data r + uint (posoff (rd_decFmt r)) + 8))
              = Some (uint (zf :: 16 word)) \<longrightarrow>
           fst (ReadPos key gc mem r rep) =
             Some [read_f32 mem (rd_data r + uint (posoff (rd_decFmt r))),
                   read_f32 mem (rd_data r + uint (posoff (rd_decFmt r)) + 4),
                   f32_mul (f32_of_int (uint zf)) (f32_div (f32_of_int 1) (f32_of_int 65535))]
         \<and> fst (ReadPosThroughZ16 key gc mem r rep) =
             Some [read_f32 mem (rd_data r + uint (posoff (rd_decFmt r))),
                   read_f32 mem (rd_data r + uint (posoff (rd_decFmt r)) + 4),
                   f32_of_int (uint zf)])
       \<and> (\<forall>z :: 16 word.
             f32_abs_bits (f32_mul (f32_of_int (uint z)) (f32_div (f32_of_int 1) (f32_of_int 65535)))
               < 0x7F800000
           \<and> 0 \<le> f32_val (f32_mul (f32_of_int (uint z)) (f32_div (f32_of_int 1) (f32_of_int 65535)))
           \<and> f32_val (f32_mul (f32_of_int (uint z)) (f32_div (f32_of_int 1) (f32_of_int 65535))) \<le> 1
           \<and> f32_abs_bits (f32_of_int (uint z)) < 0x7F800000
           \<and> f32_val (f32_of_int (uint z)) = of_int (uint z)
           \<and> f32_to_int (f32_of_int (uint z)) = Some (uint z)
           \<and> 0 \<le> uint z \<and> uint z \<le> 65535)"
proof -
  let ?p = "rd_data r + uint (posoff (rd_decFmt r))"
  have ne: "DEC_S16_3 \<noteq> DEC_FLOAT_3" by (simp add: dec_fmt_defs)
  have a: "posfmt (rd_decFmt r) = DEC_S16_3 \<longrightarrow>
           fst (ReadPos key gc mem r rep) =
             Some [f32_of_int (read_s16 mem ?p), f32_of_int (read_s16 mem (?p + 2)),
                   f32_mul (f32_of_int (uint (read_u16 mem (?p + 4)))) inv65535]
         \<and> fst (ReadPosThroughZ16 key gc mem r rep) =
             Some [f32_of_int (read_s16 mem ?p), f32_of_int (read_s16 mem (?p + 2)),
                   f32_of_int (uint (read_u16 mem (?p + 4)))]"
    using ne by (simp add: ReadPos_def ReadPosThroughZ16_def Let_def thr)
  have rf: "0 \<le> uint zf" "uint zf \<le> 65535" using uint16_range [of zf] by simp_all
  have b: "posfmt (rd_decFmt r) = DEC_FLOAT_3
          \<and> f32_to_int (read_f32 mem (?p + 8)) = Some (uint zf) \<longrightarrow>
           fst (ReadPos key gc mem r rep) =
             Some [read_f32 mem ?p, read_f32 mem (?p + 4), f32_mul (f32_of_int (uint zf)) inv65535]
         \<and> fst (ReadPosThroughZ16 key gc mem r rep) =
             Some [read_f32 mem ?p, read_f32 mem (?p + 4), f32_of_int (uint zf)]"
    by (simp add: ReadPos_def ReadPosThroughZ16_def Let_def thr
        z16_clamp_unit [OF rf] z16_clamp_raw [OF rf])
  have c: "f32_abs_bits (f32_mul (f32_of_int (uint z)) inv65535) < 0x7F800000
           \<and> 0 \<le> f32_val (f32_mul (f32_of_int (uint z)) inv65535)
           \<and> f32_val (f32_mul (f32_of_int (uint z)) inv65535) \<le> 1
           \<and> f32_abs_bits (f32_of_int (uint z)) < 0x7F800000
           \<and> f32_val (f32_of_int (uint z)) = of_int (uint z)
           \<and> f32_to_int (f32_of_int (uint z)) = Some (uint z)
           \<and> 0 \<le> uint z \<and> uint z \<le> 65535" for z :: "16 word"
  proof -
    have r: "0 \<le> uint z" "uint z \<le> 65535" using uint16_range [of z] by simp_all
    then have i24: "\<bar>uint z\<bar> < 2 ^ 24" by simp
    show ?thesis
      using z16_scaled_unit(3) [OF r] z16_scaled_val [OF r] f32_of_int_exact(3) [OF i24]
        f32_val_of_int [OF i24] f32_to_int_of_int [OF i24] r
      by (simp only: simp_thms)
  qed
  show ?thesis
    using a b c unfolding inv65535_def by (simp only: simp_thms)
qed

theorem through_z16_readers_witness:
  "isThrough psp_constants example_through \<and> posfmt (rd_decFmt example_through) = DEC_S16_3
   \<and> fst (ReadPos site_key psp_constants example_memory example_through no_reports)
       = Some [0x41200000, 0xC0400000, 0x3F7F9D00]
   \<and> fst (ReadPosThroughZ16 site_key psp_constants example_memory example_through no_reports)
       = Some [0x41200000, 0xC0400000, 0x477F9C00]
   \<and> isThrough psp_constants float_through \<and> posfmt (rd_decFmt float_through) = DEC_FLOAT_3
   \<and> f32_to_int (read_f32 (float_memory 0x477F9C00)
        (rd_data float_through + uint (posoff (rd_decFmt float_through)) + 8))
       = Some (uint (0xFF9C :: 16 word))
   \<and> fst (ReadPos site_key psp_constants (float_memory 0x477F9C00) float_through no_reports)
       = Some [0x3F800000, 0x40000000, 0x3F7F9D00]
   \<and> fst (ReadPosThroughZ16 site_key psp_constants (float_memory 0x477F9C00) float_through
        no_reports)
       = Some [0x3F800000, 0x40000000, 0x477F9C00]"
proof -
  have h1: "isThrough psp_constants example_through"
    "posfmt (rd_decFmt example_through) = DEC_S16_3"
    by (simp_all add: example_defs)
  have h2: "isThrough psp_constants float_through"
    "posfmt (rd_decFmt float_through) = DEC_FLOAT_3"
    by (simp_all add: example_defs)
  have m: "read_s16 example_memory (rd_data example_through + uint (posoff (rd_decFmt example_through))) = 10"
    "read_s16 example_memory (rd_data example_through + uint (posoff (rd_decFmt example_through)) + 2) = - 3"
    "read_u16 example_memory (rd_data example_through + uint (posoff (rd_decFmt example_through)) + 4) = 0xFF9C"
    by (simp_all add: example_defs read_defs)
  have mf: "read_f32 (float_memory 0x477F9C00)
        (rd_data float_through + uint (posoff (rd_decFmt float_through))) = 0x3F800000"
    "read_f32 (float_memory 0x477F9C00)
        (rd_data float_through + uint (posoff (rd_decFmt float_through)) + 4) = 0x40000000"
    "read_f32 (float_memory 0x477F9C00)
        (rd_data float_through + uint (posoff (rd_decFmt float_through)) + 8) = 0x477F9C00"
    by (simp_all add: example_defs read_defs)
  have f: "f32_of_int 10 = 0x41200000" "f32_of_int (- 3) = 0xC0400000"
    "f32_of_int 65436 = 0x477F9C00"
    "f32_mul 0x477F9C00 (f32_div (f32_of_int 1) (f32_of_int 65535)) = 0x3F7F9D00"
    "f32_to_int 0x477F9C00 = Some 65436"
    by (simp_all add: f32_eval)
  show ?thesis
    using through_z16_readers [OF h1(1), of site_key example_memory no_reports]
      through_z16_readers [OF h2(1), where mem = "float_memory 0x477F9C00" and zf = "0xFF9C"
        and key = site_key and rep = no_reports]
      h1 h2
    by (simp add: m mf f)
qed

text \<open>
  Claim C10. Normals and positions are scaled by different constants. \<^verbatim>\<open>ReadNrm\<close>
  returns the float products \<open>b * (1.f / 127.f)\<close> for signed-8 and
  \<open>s * (1.f / 32767.f)\<close> for signed-16 components, and the largest positive inputs
  \<open>127\<close> and \<open>32767\<close> give exactly \<open>1.0\<close>. \<^verbatim>\<open>ReadPos\<close> outside through mode
  returns \<open>b * (1.0f / 128.0f)\<close> and \<open>s * (1.0f / 32768.0f)\<close>, which are exactly
  \<open>b / 128\<close> and \<open>s / 32768\<close> and therefore always below \<open>1.0\<close>.
\<close>

theorem fixed_point_divisors:
  "(nrmfmt (rd_decFmt r) = DEC_S8_3 \<longrightarrow>
      fst (ReadNrm key mem r rep) =
        [f32_mul (f32_of_int (read_s8 mem (rd_data r + uint (nrmoff (rd_decFmt r)))))
           (f32_div (f32_of_int 1) (f32_of_int 127)),
         f32_mul (f32_of_int (read_s8 mem (rd_data r + uint (nrmoff (rd_decFmt r)) + 1)))
           (f32_div (f32_of_int 1) (f32_of_int 127)),
         f32_mul (f32_of_int (read_s8 mem (rd_data r + uint (nrmoff (rd_decFmt r)) + 2)))
           (f32_div (f32_of_int 1) (f32_of_int 127))])
   \<and> (nrmfmt (rd_decFmt r) = DEC_S16_3 \<longrightarrow>
      fst (ReadNrm key mem r rep) =
        [f32_mul (f32_of_int (read_s16 mem (rd_data r + uint (nrmoff (rd_decFmt r)))))
           (f32_div (f32_of_int 1) (f32_of_int 32767)),
         f32_mul (f32_of_int (read_s16 mem (rd_data r + uint (nrmoff (rd_decFmt r)) + 2)))
           (f32_div (f32_of_int 1) (f32_of_int 32767)),
         f32_mul (f32_of_int (read_s16 mem (rd_data r + uint (nrmoff (rd_decFmt r)) + 4)))
           (f32_div (f32_of_int 1) (f32_of_int 32767))])
   \<and> (posfmt (rd_decFmt r) = DEC_S8_3 \<and> \<not> isThrough gc r \<longrightarrow>
      fst (ReadPos key gc mem r rep) =
        Some [f32_mul (f32_of_int (read_s8 mem (rd_data r + uint (posoff (rd_decFmt r)))))
                (f32_div (f32_of_int 1) (f32_of_int 128)),
              f32_mul (f32_of_int (read_s8 mem (rd_data r + uint (posoff (rd_decFmt r)) + 1)))
                (f32_div (f32_of_int 1) (f32_of_int 128)),
              f32_mul (f32_of_int (read_s8 mem (rd_data r + uint (posoff (rd_decFmt r)) + 2)))
                (f32_div (f32_of_int 1) (f32_of_int 128))])
   \<and> (posfmt (rd_decFmt r) = DEC_S16_3 \<and> \<not> isThrough gc r \<longrightarrow>
      fst (ReadPos key gc mem r rep) =
        Some [f32_mul (f32_of_int (read_s16 mem (rd_data r + uint (posoff (rd_decFmt r)))))
                (f32_div (f32_of_int 1) (f32_of_int 32768)),
              f32_mul (f32_of_int (read_s16 mem (rd_data r + uint (posoff (rd_decFmt r)) + 2)))
                (f32_div (f32_of_int 1) (f32_of_int 32768)),
              f32_mul (f32_of_int (read_s16 mem (rd_data r + uint (posoff (rd_decFmt r)) + 4)))
                (f32_div (f32_of_int 1) (f32_of_int 32768))])
   \<and> f32_mul (f32_of_int 127) (f32_div (f32_of_int 1) (f32_of_int 127)) = f32_of_int 1
   \<and> f32_mul (f32_of_int 32767) (f32_div (f32_of_int 1) (f32_of_int 32767)) = f32_of_int 1
   \<and> f32_val (f32_of_int 1) = 1
   \<and> (\<forall>b :: 8 word.
         f32_abs_bits (f32_mul (f32_of_int (sint b)) (f32_div (f32_of_int 1) (f32_of_int 128)))
           < 0x7F800000
       \<and> f32_val (f32_mul (f32_of_int (sint b)) (f32_div (f32_of_int 1) (f32_of_int 128)))
           = of_int (sint b) / 128
       \<and> f32_val (f32_mul (f32_of_int (sint b)) (f32_div (f32_of_int 1) (f32_of_int 128))) < 1)
   \<and> (\<forall>s :: 16 word.
         f32_abs_bits (f32_mul (f32_of_int (sint s)) (f32_div (f32_of_int 1) (f32_of_int 32768)))
           < 0x7F800000
       \<and> f32_val (f32_mul (f32_of_int (sint s)) (f32_div (f32_of_int 1) (f32_of_int 32768)))
           = of_int (sint s) / 32768
       \<and> f32_val (f32_mul (f32_of_int (sint s)) (f32_div (f32_of_int 1) (f32_of_int 32768))) < 1)"
proof -
  have ne: "DEC_S8_3 \<noteq> DEC_FLOAT_3" "DEC_S8_3 \<noteq> DEC_S16_3" "DEC_S16_3 \<noteq> DEC_FLOAT_3"
    by (simp_all add: dec_fmt_defs)
  have n8: "nrmfmt (rd_decFmt r) = DEC_S8_3 \<longrightarrow>
      fst (ReadNrm key mem r rep) =
        [f32_mul (f32_of_int (read_s8 mem (rd_data r + uint (nrmoff (rd_decFmt r))))) inv127,
         f32_mul (f32_of_int (read_s8 mem (rd_data r + uint (nrmoff (rd_decFmt r)) + 1))) inv127,
         f32_mul (f32_of_int (read_s8 mem (rd_data r + uint (nrmoff (rd_decFmt r)) + 2))) inv127]"
    using ne by (simp add: ReadNrm_def Let_def)
  have n16: "nrmfmt (rd_decFmt r) = DEC_S16_3 \<longrightarrow>
      fst (ReadNrm key mem r rep) =
        [f32_mul (f32_of_int (read_s16 mem (rd_data r + uint (nrmoff (rd_decFmt r))))) inv32767,
         f32_mul (f32_of_int (read_s16 mem (rd_data r + uint (nrmoff (rd_decFmt r)) + 2))) inv32767,
         f32_mul (f32_of_int (read_s16 mem (rd_data r + uint (nrmoff (rd_decFmt r)) + 4))) inv32767]"
    using ne by (simp add: ReadNrm_def Let_def)
  have p8: "posfmt (rd_decFmt r) = DEC_S8_3 \<and> \<not> isThrough gc r \<longrightarrow>
      fst (ReadPos key gc mem r rep) =
        Some [f32_mul (f32_of_int (read_s8 mem (rd_data r + uint (posoff (rd_decFmt r))))) inv128,
              f32_mul (f32_of_int (read_s8 mem (rd_data r + uint (posoff (rd_decFmt r)) + 1))) inv128,
              f32_mul (f32_of_int (read_s8 mem (rd_data r + uint (posoff (rd_decFmt r)) + 2))) inv128]"
    using ne by (simp add: ReadPos_def Let_def)
  have p16: "posfmt (rd_decFmt r) = DEC_S16_3 \<and> \<not> isThrough gc r \<longrightarrow>
      fst (ReadPos key gc mem r rep) =
        Some [f32_mul (f32_of_int (read_s16 mem (rd_data r + uint (posoff (rd_decFmt r))))) inv32768,
              f32_mul (f32_of_int (read_s16 mem (rd_data r + uint (posoff (rd_decFmt r)) + 2))) inv32768,
              f32_mul (f32_of_int (read_s16 mem (rd_data r + uint (posoff (rd_decFmt r)) + 4))) inv32768]"
    using ne by (simp add: ReadPos_def Let_def)
  show ?thesis
    using n8 n16 p8 p16 nrm_scale_max pos_scale_s8 pos_scale_s16
    unfolding inv127_def inv32767_def inv128_def inv32768_def
    by (simp only: simp_thms)
qed

theorem fixed_point_divisors_witness:
  "nrmfmt (rd_decFmt example_transform) = DEC_S8_3
   \<and> fst (ReadNrm site_key example_memory example_transform no_reports)
       = [0x3F800000, 0xBF800000, 0]
   \<and> posfmt (rd_decFmt example_transform) = DEC_S16_3
   \<and> \<not> isThrough psp_constants example_transform
   \<and> fst (ReadPos site_key psp_constants example_memory example_transform no_reports)
       = Some [0x39A00000, 0xB8C00000, 0xBB480000]
   \<and> fst (ReadNrm site_key example_memory
         (example_transform\<lparr>rd_decFmt := example_layout\<lparr>nrmfmt := DEC_S16_3, nrmoff := 20\<rparr>\<rparr>)
         no_reports)
       = [0x39A00140, 0xB8C00180, 0xBB480190]
   \<and> fst (ReadPos site_key psp_constants example_memory
         (example_transform\<lparr>rd_decFmt := example_layout\<lparr>posfmt := DEC_S8_3, posoff := 16\<rparr>\<rparr>)
         no_reports)
       = Some [0x3F7E0000, 0xBF7E0000, 0]"
proof -
  let ?r2 = "example_transform\<lparr>rd_decFmt := example_layout\<lparr>nrmfmt := DEC_S16_3, nrmoff := 20\<rparr>\<rparr>"
  let ?r3 = "example_transform\<lparr>rd_decFmt := example_layout\<lparr>posfmt := DEC_S8_3, posoff := 16\<rparr>\<rparr>"
  have h: "nrmfmt (rd_decFmt example_transform) = DEC_S8_3"
    "posfmt (rd_decFmt example_transform) = DEC_S16_3"
    "\<not> isThrough psp_constants example_transform"
    "nrmfmt (rd_decFmt ?r2) = DEC_S16_3"
    "posfmt (rd_decFmt ?r3) = DEC_S8_3" "\<not> isThrough psp_constants ?r3"
    by (simp_all add: example_defs)
  have m: "read_s8 example_memory (rd_data example_transform + uint (nrmoff (rd_decFmt example_transform))) = 127"
    "read_s8 example_memory (rd_data example_transform + uint (nrmoff (rd_decFmt example_transform)) + 1) = - 127"
    "read_s8 example_memory (rd_data example_transform + uint (nrmoff (rd_decFmt example_transform)) + 2) = 0"
    "read_s16 example_memory (rd_data example_transform + uint (posoff (rd_decFmt example_transform))) = 10"
    "read_s16 example_memory (rd_data example_transform + uint (posoff (rd_decFmt example_transform)) + 2) = - 3"
    "read_s16 example_memory (rd_data example_transform + uint (posoff (rd_decFmt example_transform)) + 4) = - 100"
    "read_s16 example_memory (rd_data ?r2 + uint (nrmoff (rd_decFmt ?r2))) = 10"
    "read_s16 example_memory (rd_data ?r2 + uint (nrmoff (rd_decFmt ?r2)) + 2) = - 3"
    "read_s16 example_memory (rd_data ?r2 + uint (nrmoff (rd_decFmt ?r2)) + 4) = - 100"
    "read_s8 example_memory (rd_data ?r3 + uint (posoff (rd_decFmt ?r3))) = 127"
    "read_s8 example_memory (rd_data ?r3 + uint (posoff (rd_decFmt ?r3)) + 1) = - 127"
    "read_s8 example_memory (rd_data ?r3 + uint (posoff (rd_decFmt ?r3)) + 2) = 0"
    by (simp_all add: example_defs read_defs)
  have f: "f32_mul (f32_of_int 127) (f32_div (f32_of_int 1) (f32_of_int 127)) = 0x3F800000"
    "f32_mul (f32_of_int (- 127)) (f32_div (f32_of_int 1) (f32_of_int 127)) = 0xBF800000"
    "f32_mul (f32_of_int 0) (f32_div (f32_of_int 1) (f32_of_int 127)) = 0"
    "f32_mul (f32_of_int 10) (f32_div (f32_of_int 1) (f32_of_int 32768)) = 0x39A00000"
    "f32_mul (f32_of_int (- 3)) (f32_div (f32_of_int 1) (f32_of_int 32768)) = 0xB8C00000"
    "f32_mul (f32_of_int (- 100)) (f32_div (f32_of_int 1) (f32_of_int 32768)) = 0xBB480000"
    "f32_mul (f32_of_int 10) (f32_div (f32_of_int 1) (f32_of_int 32767)) = 0x39A00140"
    "f32_mul (f32_of_int (- 3)) (f32_div (f32_of_int 1) (f32_of_int 32767)) = 0xB8C00180"
    "f32_mul (f32_of_int (- 100)) (f32_div (f32_of_int 1) (f32_of_int 32767)) = 0xBB480190"
    "f32_mul (f32_of_int 127) (f32_div (f32_of_int 1) (f32_of_int 128)) = 0x3F7E0000"
    "f32_mul (f32_of_int (- 127)) (f32_div (f32_of_int 1) (f32_of_int 128)) = 0xBF7E0000"
    "f32_mul (f32_of_int 0) (f32_div (f32_of_int 1) (f32_of_int 128)) = 0"
    by (simp_all add: f32_eval)
  show ?thesis
    using fixed_point_divisors [of example_transform site_key example_memory no_reports psp_constants]
      fixed_point_divisors [of ?r2 site_key example_memory no_reports psp_constants]
      fixed_point_divisors [of ?r3 site_key example_memory no_reports psp_constants]
    unfolding m f using h by (simp only: simp_thms)
qed

text \<open>
  Claim C9. \<^verbatim>\<open>ReadColor1\<close> writes exactly three floats. For the 4x-uint8 encoding they
  are the first three bytes scaled by \<open>1.f / 255.f\<close>, for the 4x-float encoding the
  first three floats copied; the alpha component (the fourth byte, or the fourth float)
  is never read: changing its bytes in memory changes nothing of what the reader returns.
\<close>

theorem color1_three_components:
  "length (fst (ReadColor1 key mem r rep)) = 3
   \<and> (c1fmt (rd_decFmt r) = DEC_U8_4 \<longrightarrow>
        fst (ReadColor1 key mem r rep) =
          [f32_mul (f32_of_int (uint (read_u8 mem (rd_data r + uint (c1off (rd_decFmt r))))))
             (f32_div (f32_of_int 1) (f32_of_int 255)),
           f32_mul (f32_of_int (uint (read_u8 mem (rd_data r + uint (c1off (rd_decFmt r)) + 1))))
             (f32_div (f32_of_int 1) (f32_of_int 255)),
           f32_mul (f32_of_int (uint (read_u8 mem (rd_data r + uint (c1off (rd_decFmt r)) + 2))))
             (f32_div (f32_of_int 1) (f32_of_int 255))])
   \<and> (c1fmt (rd_decFmt r) = DEC_FLOAT_4 \<longrightarrow>
        fst (ReadColor1 key mem r rep) =
          [read_f32 mem (rd_data r + uint (c1off (rd_decFmt r))),
           read_f32 mem (rd_data r + uint (c1off (rd_decFmt r)) + 4),
           read_f32 mem (rd_data r + uint (c1off (rd_decFmt r)) + 8)])
   \<and> ((\<forall>a. a \<notin> color1_alpha_addrs r \<longrightarrow> mem' a = mem a) \<longrightarrow>
        ReadColor1 key mem' r rep = ReadColor1 key mem r rep)"
proof -
  have ne: "DEC_U8_4 \<noteq> DEC_FLOAT_4" by (simp add: dec_fmt_defs)
  have a: "c1fmt (rd_decFmt r) = DEC_U8_4 \<longrightarrow>
        fst (ReadColor1 key mem r rep) =
          [f32_mul (f32_of_int (uint (read_u8 mem (rd_data r + uint (c1off (rd_decFmt r)))))) inv255,
           f32_mul (f32_of_int (uint (read_u8 mem (rd_data r + uint (c1off (rd_decFmt r)) + 1)))) inv255,
           f32_mul (f32_of_int (uint (read_u8 mem (rd_data r + uint (c1off (rd_decFmt r)) + 2)))) inv255]"
    by (simp add: ReadColor1_def Let_def)
  have b: "c1fmt (rd_decFmt r) = DEC_FLOAT_4 \<longrightarrow>
        fst (ReadColor1 key mem r rep) =
          [read_f32 mem (rd_data r + uint (c1off (rd_decFmt r))),
           read_f32 mem (rd_data r + uint (c1off (rd_decFmt r)) + 4),
           read_f32 mem (rd_data r + uint (c1off (rd_decFmt r)) + 8)]"
    using ne by (simp add: ReadColor1_def Let_def)
  have c: "(\<forall>a. a \<notin> color1_alpha_addrs r \<longrightarrow> mem' a = mem a) \<longrightarrow>
        ReadColor1 key mem' r rep = ReadColor1 key mem r rep"
    using ReadColor1_alpha_unread [of r mem' mem key rep] by blast
  show ?thesis
    using a b c ReadColor1_length [of key mem r rep]
    unfolding inv255_def by (simp only: simp_thms)
qed

theorem color1_three_components_witness:
  "c1fmt (rd_decFmt example_through) = DEC_U8_4
   \<and> color1_alpha_addrs example_through = {0x100F}
   \<and> example_memory 0x100F = 0x40
   \<and> store_bytes 0x100F [0x99] example_memory 0x100F = 0x99
   \<and> fst (ReadColor1 site_key example_memory example_through no_reports)
       = [0x3D808081, 0x3E008081, 0x3E40C0C2]
   \<and> ReadColor1 site_key (store_bytes 0x100F [0x99] example_memory) example_through no_reports
       = ReadColor1 site_key example_memory example_through no_reports
   \<and> c1fmt (rd_decFmt (example_through\<lparr>rd_decFmt := example_layout\<lparr>c1fmt := DEC_FLOAT_4, c1off := 0\<rparr>\<rparr>))
       = DEC_FLOAT_4
   \<and> fst (ReadColor1 site_key example_memory
         (example_through\<lparr>rd_decFmt := example_layout\<lparr>c1fmt := DEC_FLOAT_4, c1off := 0\<rparr>\<rparr>) no_reports)
       = [0x3F000000, 0x3E800000, 0xFF0080FF]"
proof -
  let ?r2 = "example_through\<lparr>rd_decFmt := example_layout\<lparr>c1fmt := DEC_FLOAT_4, c1off := 0\<rparr>\<rparr>"
  let ?m' = "store_bytes 0x100F [0x99] example_memory"
  have h: "c1fmt (rd_decFmt example_through) = DEC_U8_4" "c1fmt (rd_decFmt ?r2) = DEC_FLOAT_4"
    by (simp_all add: example_defs)
  have al: "color1_alpha_addrs example_through = {0x100F}"
    by (simp add: color1_alpha_addrs_def Let_def example_defs dec_fmt_defs)
  have d: "\<forall>a. a \<notin> color1_alpha_addrs example_through \<longrightarrow> ?m' a = example_memory a"
    unfolding al by (simp add: store_bytes_def)
  have v: "example_memory 0x100F = 0x40" "?m' 0x100F = 0x99"
    by (simp_all add: example_defs store_bytes_def)
  have m: "read_u8 example_memory (rd_data example_through + uint (c1off (rd_decFmt example_through))) = 0x10"
    "read_u8 example_memory (rd_data example_through + uint (c1off (rd_decFmt example_through)) + 1) = 0x20"
    "read_u8 example_memory (rd_data example_through + uint (c1off (rd_decFmt example_through)) + 2) = 0x30"
    "read_f32 example_memory (rd_data ?r2 + uint (c1off (rd_decFmt ?r2))) = 0x3F000000"
    "read_f32 example_memory (rd_data ?r2 + uint (c1off (rd_decFmt ?r2)) + 4) = 0x3E800000"
    "read_f32 example_memory (rd_data ?r2 + uint (c1off (rd_decFmt ?r2)) + 8) = 0xFF0080FF"
    by (simp_all add: example_defs read_defs)
  have f: "f32_mul (f32_of_int (uint (0x10 :: u8))) (f32_div (f32_of_int 1) (f32_of_int 255)) = 0x3D808081"
    "f32_mul (f32_of_int (uint (0x20 :: u8))) (f32_div (f32_of_int 1) (f32_of_int 255)) = 0x3E008081"
    "f32_mul (f32_of_int (uint (0x30 :: u8))) (f32_div (f32_of_int 1) (f32_of_int 255)) = 0x3E40C0C2"
    by (simp_all add: f32_eval)
  show ?thesis
    using color1_three_components [of site_key example_memory example_through no_reports ?m']
      color1_three_components [of site_key example_memory ?r2 no_reports example_memory]
    unfolding m f using h d al v by (simp only: simp_thms)
qed

text \<open>
  Claim C2, as stated, fails: in the signed-16 format with through mode on, a stored Z
  of \<open>-100\<close> (the bytes \<open>9C FF\<close>, \<open>65436\<close> as the unsigned value the reader takes)
  is not clamped to \<open>0.0\<close> by \<^verbatim>\<open>ReadPos\<close>: it comes back as \<open>65437 / 65536\<close>.
\<close>

theorem through_z_s16_unclamped:
  "posfmt (rd_decFmt example_through) = DEC_S16_3 \<and> isThrough psp_constants example_through
   \<and> read_s16 example_memory 0x1018 = - 100
   \<and> fst (ReadPos site_key psp_constants example_memory example_through no_reports)
       = Some [0x41200000, 0xC0400000, 0x3F7F9D00]
   \<and> f32_val 0x3F7F9D00 = 65437 / 65536
   \<and> (0x3F7F9D00 :: f32) \<noteq> f32_of_int 0"
proof -
  have h: "posfmt (rd_decFmt example_through) = DEC_S16_3" "isThrough psp_constants example_through"
    "DEC_S16_3 \<noteq> DEC_FLOAT_3"
    by (simp_all add: example_defs dec_fmt_defs)
  have m: "read_s16 example_memory 0x1018 = - 100"
    "rd_data example_through + uint (posoff (rd_decFmt example_through)) = 0x1014"
    "read_s16 example_memory 0x1014 = 10" "read_s16 example_memory 0x1016 = - 3"
    "read_u16 example_memory 0x1018 = 0xFF9C"
    by (simp_all add: example_defs read_defs)
  have f: "f32_of_int 10 = 0x41200000" "f32_of_int (- 3) = 0xC0400000"
    by (simp_all add: f32_eval)
  have "fst (ReadPos site_key psp_constants example_memory example_through no_reports)
       = Some [0x41200000, 0xC0400000, 0x3F7F9D00]"
    by (simp add: ReadPos_def Let_def h m f z16_scale_eval inv65535_bits)
  then show ?thesis
    using h m by (simp add: f32_val_eval float_clamp_eval)
qed

text \<open>
  Claim C2, amended. With through mode on, the signed-16 format has no clamp: its Z is
  read as an unsigned 16-bit value \<open>u\<close>, already in range, and for every such vertex
  \<^verbatim>\<open>ReadPos\<close> returns the float product \<open>u * (1.0f / 65535.0f)\<close> and
  \<^verbatim>\<open>ReadPosThroughZ16\<close> returns \<open>u\<close> as a float. A stored \<open>-100\<close> (\<open>65436\<close> unsigned) reads
  as \<open>65436 * (1.0f / 65535.0f) = 65437 / 65536\<close> from \<^verbatim>\<open>ReadPos\<close> and as \<open>65436.0\<close>
  from \<^verbatim>\<open>ReadPosThroughZ16\<close>; \<open>70000\<close>, which wraps to \<open>4464\<close>, reads as
  \<open>4464 * (1.0f / 65535.0f)\<close> and \<open>4464.0\<close>. The clamps are those of the float format:
  there a stored Z of \<open>-100.0\<close> reads as \<open>0.0\<close> from both readers, and a stored Z of
  \<open>70000.0\<close> reads as \<open>1.0\<close> from \<^verbatim>\<open>ReadPos\<close> and as \<open>65535.0\<close> from
  \<^verbatim>\<open>ReadPosThroughZ16\<close>.
\<close>

theorem through_z_by_format:
  "(posfmt (rd_decFmt r) = DEC_S16_3 \<and> isThrough gc r \<longrightarrow>
        map_option (\<lambda>pos. pos ! 2) (fst (ReadPos key gc mem r rep))
          = Some (f32_mul (f32_of_int (uint (read_u16 mem (rd_data r + uint (posoff (rd_decFmt r)) + 4))))
                    (f32_div (f32_of_int 1) (f32_of_int 65535)))
      \<and> map_option (\<lambda>pos. pos ! 2) (fst (ReadPosThroughZ16 key gc mem r rep))
          = Some (f32_of_int (uint (read_u16 mem (rd_data r + uint (posoff (rd_decFmt r)) + 4)))))
   \<and> (posfmt (rd_decFmt r) = DEC_S16_3 \<and> isThrough gc r
      \<and> read_u16 mem (rd_data r + uint (posoff (rd_decFmt r)) + 4) = 0xFF9C \<longrightarrow>
        map_option (\<lambda>pos. pos ! 2) (fst (ReadPos key gc mem r rep)) = Some 0x3F7F9D00
      \<and> map_option (\<lambda>pos. pos ! 2) (fst (ReadPosThroughZ16 key gc mem r rep)) = Some 0x477F9C00)
   \<and> (posfmt (rd_decFmt r) = DEC_S16_3 \<and> isThrough gc r
      \<and> read_u16 mem (rd_data r + uint (posoff (rd_decFmt r)) + 4) = 0x1170 \<longrightarrow>
        map_option (\<lambda>pos. pos ! 2) (fst (ReadPos key gc mem r rep)) = Some 0x3D8B808C
      \<and> map_option (\<lambda>pos. pos ! 2) (fst (ReadPosThroughZ16 key gc mem r rep)) = Some 0x458B8000)
   \<and> (posfmt (rd_decFmt r) = DEC_FLOAT_3 \<and> isThrough gc r
      \<and> read_f32 mem (rd_data r + uint (posoff (rd_decFmt r)) + 8) = 0xC2C80000 \<longrightarrow>
        map_option (\<lambda>pos. pos ! 2) (fst (ReadPos key gc mem r rep)) = Some 0
      \<and> map_option (\<lambda>pos. pos ! 2) (fst (ReadPosThroughZ16 key gc mem r rep)) = Some 0)
   \<and> (posfmt (rd_decFmt r) = DEC_FLOAT_3 \<and> isThrough gc r
      \<and> read_f32 mem (rd_data r + uint (posoff (rd_decFmt r)) + 8) = 0x4788B800 \<longrightarrow>
        map_option (\<lambda>pos. pos ! 2) (fst (ReadPos key gc mem r rep)) = Some 0x3F800000
      \<and> map_option (\<lambda>pos. pos ! 2) (fst (ReadPosThroughZ16 key gc mem r rep)) = Some 0x477FFF00)
   \<and> sint (0xFF9C :: 16 word) = - 100 \<and> uint (0xFF9C :: 16 word) = 65436
   \<and> uint (0x1170 :: 16 word) = 70000 mod 65536
   \<and> f32_val 0xC2C80000 = - 100 \<and> f32_val 0x4788B800 = 70000
   \<and> f32_val 0 = 0 \<and> f32_val 0x3F800000 = 1 \<and> f32_val 0x477FFF00 = 65535
   \<and> f32_val 0x3F7F9D00 = 65437 / 65536 \<and> f32_val 0x477F9C00 = 65436
   \<and> f32_val 0x3D8B808C = 2285603 / 33554432 \<and> f32_val 0x458B8000 = 4464"
proof -
  have ne: "DEC_S16_3 \<noteq> DEC_FLOAT_3" by (simp add: dec_fmt_defs)
  have g: "posfmt (rd_decFmt r) = DEC_S16_3 \<and> isThrough gc r \<longrightarrow>
        map_option (\<lambda>pos. pos ! 2) (fst (ReadPos key gc mem r rep))
          = Some (f32_mul (f32_of_int (uint (read_u16 mem (rd_data r + uint (posoff (rd_decFmt r)) + 4))))
                    (f32_div (f32_of_int 1) (f32_of_int 65535)))
      \<and> map_option (\<lambda>pos. pos ! 2) (fst (ReadPosThroughZ16 key gc mem r rep))
          = Some (f32_of_int (uint (read_u16 mem (rd_data r + uint (posoff (rd_decFmt r)) + 4))))"
    using ne by (simp add: ReadPos_def ReadPosThroughZ16_def Let_def inv65535_def)
  have a: "posfmt (rd_decFmt r) = DEC_S16_3 \<and> isThrough gc r
      \<and> read_u16 mem (rd_data r + uint (posoff (rd_decFmt r)) + 4) = 0xFF9C \<longrightarrow>
        map_option (\<lambda>pos. pos ! 2) (fst (ReadPos key gc mem r rep)) = Some 0x3F7F9D00
      \<and> map_option (\<lambda>pos. pos ! 2) (fst (ReadPosThroughZ16 key gc mem r rep)) = Some 0x477F9C00"
    using ne by (simp add: ReadPos_def ReadPosThroughZ16_def Let_def z16_scale_eval inv65535_bits)
  have b: "posfmt (rd_decFmt r) = DEC_S16_3 \<and> isThrough gc r
      \<and> read_u16 mem (rd_data r + uint (posoff (rd_decFmt r)) + 4) = 0x1170 \<longrightarrow>
        map_option (\<lambda>pos. pos ! 2) (fst (ReadPos key gc mem r rep)) = Some 0x3D8B808C
      \<and> map_option (\<lambda>pos. pos ! 2) (fst (ReadPosThroughZ16 key gc mem r rep)) = Some 0x458B8000"
    using ne by (simp add: ReadPos_def ReadPosThroughZ16_def Let_def z16_scale_eval inv65535_bits)
  have c: "posfmt (rd_decFmt r) = DEC_FLOAT_3 \<and> isThrough gc r
      \<and> read_f32 mem (rd_data r + uint (posoff (rd_decFmt r)) + 8) = 0xC2C80000 \<longrightarrow>
        map_option (\<lambda>pos. pos ! 2) (fst (ReadPos key gc mem r rep)) = Some 0
      \<and> map_option (\<lambda>pos. pos ! 2) (fst (ReadPosThroughZ16 key gc mem r rep)) = Some 0"
    by (simp add: ReadPos_def ReadPosThroughZ16_def Let_def float_clamp_eval float_clamp_cmp inv65535_bits)
  have d: "posfmt (rd_decFmt r) = DEC_FLOAT_3 \<and> isThrough gc r
      \<and> read_f32 mem (rd_data r + uint (posoff (rd_decFmt r)) + 8) = 0x4788B800 \<longrightarrow>
        map_option (\<lambda>pos. pos ! 2) (fst (ReadPos key gc mem r rep)) = Some 0x3F800000
      \<and> map_option (\<lambda>pos. pos ! 2) (fst (ReadPosThroughZ16 key gc mem r rep)) = Some 0x477FFF00"
    by (simp add: ReadPos_def ReadPosThroughZ16_def Let_def float_clamp_eval float_clamp_cmp inv65535_bits)
  have e: "sint (0xFF9C :: 16 word) = - 100" "uint (0xFF9C :: 16 word) = 65436"
    "uint (0x1170 :: 16 word) = 70000 mod 65536"
    by simp_all
  show ?thesis
    using g a b c d e f32_val_eval by (simp only: simp_thms)
qed

theorem through_z_by_format_witness:
  "posfmt (rd_decFmt example_through) = DEC_S16_3 \<and> isThrough psp_constants example_through
   \<and> read_u16 example_memory (rd_data example_through + uint (posoff (rd_decFmt example_through)) + 4)
       = 0xFF9C
   \<and> map_option (\<lambda>pos. pos ! 2)
        (fst (ReadPos site_key psp_constants example_memory example_through no_reports))
       = Some 0x3F7F9D00
   \<and> map_option (\<lambda>pos. pos ! 2)
        (fst (ReadPosThroughZ16 site_key psp_constants example_memory example_through no_reports))
       = Some 0x477F9C00
   \<and> read_u16 example_memory
        (rd_data (Goto example_through 1) + uint (posoff (rd_decFmt (Goto example_through 1))) + 4)
       = 0x1170
   \<and> map_option (\<lambda>pos. pos ! 2)
        (fst (ReadPos site_key psp_constants example_memory (Goto example_through 1) no_reports))
       = Some 0x3D8B808C
   \<and> map_option (\<lambda>pos. pos ! 2)
        (fst (ReadPosThroughZ16 site_key psp_constants example_memory (Goto example_through 1)
           no_reports))
       = Some 0x458B8000
   \<and> posfmt (rd_decFmt float_through) = DEC_FLOAT_3 \<and> isThrough psp_constants float_through
   \<and> read_f32 (float_memory 0xC2C80000)
        (rd_data float_through + uint (posoff (rd_decFmt float_through)) + 8) = 0xC2C80000
   \<and> map_option (\<lambda>pos. pos ! 2)
        (fst (ReadPos site_key psp_constants (float_memory 0xC2C80000) float_through no_reports))
       = Some 0
   \<and> map_option (\<lambda>pos. pos ! 2)
        (fst (ReadPosThroughZ16 site_key psp_constants (float_memory 0xC2C80000) float_through
           no_reports))
       = Some 0
   \<and> read_f32 (float_memory 0x4788B800)
        (rd_data float_through + uint (posoff (rd_decFmt float_through)) + 8) = 0x4788B800
   \<and> map_option (\<lambda>pos. pos ! 2)
        (fst (ReadPos site_key psp_constants (float_memory 0x4788B800) float_through no_reports))
       = Some 0x3F800000
   \<and> map_option (\<lambda>pos. pos ! 2)
        (fst (ReadPosThroughZ16 site_key psp_constants (float_memory 0x4788B800) float_through
           no_reports))
       = Some 0x477FFF00"
proof -
  let ?g = "Goto example_through 1"
  have h: "posfmt (rd_decFmt example_through) = DEC_S16_3" "isThrough psp_constants example_through"
    "posfmt (rd_decFmt ?g) = DEC_S16_3" "isThrough psp_constants ?g"
    "posfmt (rd_decFmt float_through) = DEC_FLOAT_3" "isThrough psp_constants float_through"
    by (simp_all add: example_defs Goto_def)
  have m: "read_u16 example_memory (rd_data example_through + uint (posoff (rd_decFmt example_through)) + 4)
       = 0xFF9C"
    "read_u16 example_memory (rd_data ?g + uint (posoff (rd_decFmt ?g)) + 4) = 0x1170"
    "read_f32 (float_memory 0xC2C80000)
        (rd_data float_through + uint (posoff (rd_decFmt float_through)) + 8) = 0xC2C80000"
    "read_f32 (float_memory 0x4788B800)
        (rd_data float_through + uint (posoff (rd_decFmt float_through)) + 8) = 0x4788B800"
    by (simp_all add: example_defs read_defs Goto_def)
  note t1 = through_z_by_format [where r = example_through and gc = psp_constants
      and mem = example_memory and key = site_key and rep = no_reports]
  note t2 = through_z_by_format [where r = "?g" and gc = psp_constants
      and mem = example_memory and key = site_key and rep = no_reports]
  note t3 = through_z_by_format [where r = float_through and gc = psp_constants
      and mem = "float_memory 0xC2C80000" and key = site_key and rep = no_reports]
  note t4 = through_z_by_format [where r = float_through and gc = psp_constants
      and mem = "float_memory 0x4788B800" and key = site_key and rep = no_reports]
  have a1: "map_option (\<lambda>pos. pos ! 2)
        (fst (ReadPos site_key psp_constants example_memory example_through no_reports))
       = Some 0x3F7F9D00
   \<and> map_option (\<lambda>pos. pos ! 2)
        (fst (ReadPosThroughZ16 site_key psp_constants example_memory example_through no_reports))
       = Some 0x477F9C00"
    using h(1,2) m(1) t1 [THEN conjunct2, THEN conjunct1] by (simp only: simp_thms)
  have a2: "map_option (\<lambda>pos. pos ! 2)
        (fst (ReadPos site_key psp_constants example_memory ?g no_reports))
       = Some 0x3D8B808C
   \<and> map_option (\<lambda>pos. pos ! 2)
        (fst (ReadPosThroughZ16 site_key psp_constants example_memory ?g no_reports))
       = Some 0x458B8000"
    using h(3,4) m(2) t2 [THEN conjunct2, THEN conjunct2, THEN conjunct1]
    by (simp only: simp_thms)
  have a3: "map_option (\<lambda>pos. pos ! 2)
        (fst (ReadPos site_key psp_constants (float_memory 0xC2C80000) float_through no_reports))
       = Some 0
   \<and> map_option (\<lambda>pos. pos ! 2)
        (fst (ReadPosThroughZ16 site_key psp_constants (float_memory 0xC2C80000) float_through
           no_reports))
       = Some 0"
    using h(5,6) m(3) t3 [THEN conjunct2, THEN conjunct2, THEN conjunct2, THEN conjunct1]
    by (simp only: simp_thms)
  have a4: "map_option (\<lambda>pos. pos ! 2)
        (fst (ReadPos site_key psp_constants (float_memory 0x4788B800) float_through no_reports))
       = Some 0x3F800000
   \<and> map_option (\<lambda>pos. pos ! 2)
        (fst (ReadPosThroughZ16 site_key psp_constants (float_memory 0x4788B800) float_through
           no_reports))
       = Some 0x477FFF00"
    using h(5,6) m(4)
      t4 [THEN conjunct2, THEN conjunct2, THEN conjunct2, THEN conjunct2, THEN conjunct1]
    by (simp only: simp_thms)
  show ?thesis
    using h m a1 a2 a3 a4 by (simp only: simp_thms)
qed

text \<open>
  Claim C4. A reader whose format is none of its \<^verbatim>\<open>case\<close> labels writes zeros for its
  attribute (three for the normal, the position and color1, two for the texture
  coordinates, four for color0) and passes the format to \<^verbatim>\<open>ERROR_LOG_REPORT_ONCE\<close>.
  Starting from no reports, the first such diagnostic is raised; after any sequence of
  calls no two raised diagnostics share a key, so none is raised twice for the same
  call site and format. The reader does not abort: the calls that follow return what
  they would have returned anyway, for this vertex and, after \<^verbatim>\<open>Goto\<close>, for the next.
\<close>

theorem unsupported_format_zero_fill:
  "(nrmfmt (rd_decFmt r) \<notin> {DEC_FLOAT_3, DEC_S16_3, DEC_S8_3} \<longrightarrow>
      ReadNrm key mem r rep =
        ([0, 0, 0], ERROR_LOG_REPORT_ONCE key fmtnrm (nrmfmt (rd_decFmt r)) rep))
   \<and> (posfmt (rd_decFmt r) \<notin> {DEC_FLOAT_3, DEC_S16_3, DEC_S8_3} \<longrightarrow>
      ReadPos key gc mem r rep =
        (Some [0, 0, 0], ERROR_LOG_REPORT_ONCE key fmtpos (posfmt (rd_decFmt r)) rep))
   \<and> (uvfmt (rd_decFmt r) \<notin> {DEC_U8_2, DEC_U16_2, DEC_FLOAT_2} \<longrightarrow>
      ReadUV key mem r rep =
        ([0, 0], ERROR_LOG_REPORT_ONCE key fmtuv (uvfmt (rd_decFmt r)) rep))
   \<and> (c0fmt (rd_decFmt r) \<notin> {DEC_U8_4, DEC_FLOAT_4} \<longrightarrow>
      ReadColor0 key mem r rep =
        ([0, 0, 0, 0], ERROR_LOG_REPORT_ONCE key fmtc0 (c0fmt (rd_decFmt r)) rep))
   \<and> (c1fmt (rd_decFmt r) \<notin> {DEC_U8_4, DEC_FLOAT_4} \<longrightarrow>
      ReadColor1 key mem r rep =
        ([0, 0, 0], ERROR_LOG_REPORT_ONCE key fmtc1 (c1fmt (rd_decFmt r)) rep))
   \<and> f32_of_int 0 = 0 \<and> f32_val 0 = 0
   \<and> emitted (ERROR_LOG_REPORT_ONCE key n v no_reports) = [(n, v)]
   \<and> distinct (map (\<lambda>(n, v). key n v)
        (emitted (snd (snd (calls key gc mem cs (r, no_reports))))))
   \<and> distinct (emitted (snd (snd (calls key gc mem cs (r, no_reports)))))
   \<and> (unsupported c r \<longrightarrow>
        fst (calls key gc mem (c # cs) (r, rep)) =
          Some (zero_fill c) # fst (calls key gc mem cs (r, rep)))"
proof -
  have a: "nrmfmt (rd_decFmt r) \<notin> {DEC_FLOAT_3, DEC_S16_3, DEC_S8_3} \<longrightarrow>
      ReadNrm key mem r rep =
        ([0, 0, 0], ERROR_LOG_REPORT_ONCE key fmtnrm (nrmfmt (rd_decFmt r)) rep)"
    by (simp add: ReadNrm_def Let_def)
  have b: "posfmt (rd_decFmt r) \<notin> {DEC_FLOAT_3, DEC_S16_3, DEC_S8_3} \<longrightarrow>
      ReadPos key gc mem r rep =
        (Some [0, 0, 0], ERROR_LOG_REPORT_ONCE key fmtpos (posfmt (rd_decFmt r)) rep)"
    by (simp add: ReadPos_def Let_def)
  have c: "uvfmt (rd_decFmt r) \<notin> {DEC_U8_2, DEC_U16_2, DEC_FLOAT_2} \<longrightarrow>
      ReadUV key mem r rep =
        ([0, 0], ERROR_LOG_REPORT_ONCE key fmtuv (uvfmt (rd_decFmt r)) rep)"
    by (simp add: ReadUV_def Let_def)
  have d: "c0fmt (rd_decFmt r) \<notin> {DEC_U8_4, DEC_FLOAT_4} \<longrightarrow>
      ReadColor0 key mem r rep =
        ([0, 0, 0, 0], ERROR_LOG_REPORT_ONCE key fmtc0 (c0fmt (rd_decFmt r)) rep)"
    by (simp add: ReadColor0_def Let_def)
  have e: "c1fmt (rd_decFmt r) \<notin> {DEC_U8_4, DEC_FLOAT_4} \<longrightarrow>
      ReadColor1 key mem r rep =
        ([0, 0, 0], ERROR_LOG_REPORT_ONCE key fmtc1 (c1fmt (rd_decFmt r)) rep)"
    by (simp add: ReadColor1_def Let_def)
  have f: "f32_of_int 0 = 0" "f32_val 0 = 0"
    by (simp_all add: float_clamp_eval f32_val_eval)
  have g: "emitted (ERROR_LOG_REPORT_ONCE key n v no_reports) = [(n, v)]"
    by (simp add: ERROR_LOG_REPORT_ONCE_def no_reports_def)
  have inv: "reporting_inv key (snd (snd (calls key gc mem cs (r, no_reports))))"
    using calls_inv [of key "(r, no_reports)" gc mem cs] by (simp add: no_reports_inv)
  then have h: "distinct (map (\<lambda>(n, v). key n v)
        (emitted (snd (snd (calls key gc mem cs (r, no_reports))))))"
    by (simp add: reporting_inv_def)
  then have i: "distinct (emitted (snd (snd (calls key gc mem cs (r, no_reports)))))"
    by (simp add: distinct_map)
  have j: "unsupported c r \<longrightarrow>
        fst (calls key gc mem (c # cs) (r, rep)) =
          Some (zero_fill c) # fst (calls key gc mem cs (r, rep))"
    using calls_after_unsupported [of c r key gc mem cs rep] by blast
  show ?thesis
    using a b c d e f g h i j by (simp only: simp_thms)
qed

theorem unsupported_format_zero_fill_witness:
  "nrmfmt (rd_decFmt example_bad_normal) = 15
   \<and> nrmfmt (rd_decFmt example_bad_normal) \<notin> {DEC_FLOAT_3, DEC_S16_3, DEC_S8_3}
   \<and> unsupported CallReadNrm example_bad_normal
   \<and> ReadNrm site_key example_memory example_bad_normal no_reports =
       ([0, 0, 0], \<lparr>reported = [fmtnrm], emitted = [(fmtnrm, 15)]\<rparr>)
   \<and> fst (calls site_key psp_constants example_memory
            [CallReadNrm, CallReadPos, CallGoto 1, CallReadNrm, CallReadPos]
            (example_bad_normal, no_reports)) =
       [Some [0, 0, 0], Some [0x41200000, 0xC0400000, 0x3F7F9D00], Some [],
        Some [0, 0, 0], Some [0x46FFFE00, 0xC7000000, 0x3D8B808C]]
   \<and> emitted (snd (snd (calls site_key psp_constants example_memory
            [CallReadNrm, CallReadPos, CallGoto 1, CallReadNrm, CallReadPos]
            (example_bad_normal, no_reports)))) = [(fmtnrm, 15)]"
proof -
  let ?cs = "[CallReadPos, CallGoto 1, CallReadNrm, CallReadPos]"
  have fm: "nrmfmt (rd_decFmt example_bad_normal) = 15"
    by (simp add: example_bad_normal_def example_defs)
  then have bad: "nrmfmt (rd_decFmt example_bad_normal) \<notin> {DEC_FLOAT_3, DEC_S16_3, DEC_S8_3}"
    by (simp add: dec_fmt_defs)
  then have u: "unsupported CallReadNrm example_bad_normal" by simp
  have ps: "posfmt (rd_decFmt example_bad_normal) = DEC_S16_3"
    "isThrough psp_constants example_bad_normal"
    "posfmt (rd_decFmt (Goto example_bad_normal 1)) = DEC_S16_3"
    "isThrough psp_constants (Goto example_bad_normal 1)"
    "nrmfmt (rd_decFmt (Goto example_bad_normal 1)) = 15"
    "DEC_S16_3 \<noteq> DEC_FLOAT_3"
    "15 \<noteq> DEC_FLOAT_3" "15 \<noteq> DEC_S16_3" "15 \<noteq> DEC_S8_3"
    by (simp_all add: example_bad_normal_def example_defs Goto_def dec_fmt_defs)
  have m: "rd_data example_bad_normal + uint (posoff (rd_decFmt example_bad_normal)) = 0x1014"
    "rd_data (Goto example_bad_normal 1) + uint (posoff (rd_decFmt (Goto example_bad_normal 1)))
       = 0x1030"
    "read_s16 example_memory 0x1014 = 10" "read_s16 example_memory 0x1016 = - 3"
    "read_u16 example_memory 0x1018 = 0xFF9C"
    "read_s16 example_memory 0x1030 = 32767" "read_s16 example_memory 0x1032 = - 32768"
    "read_u16 example_memory 0x1034 = 0x1170"
    by (simp_all add: example_bad_normal_def example_defs read_defs Goto_def)
  have p0: "ReadPos site_key psp_constants example_memory example_bad_normal rep
        = (Some [0x41200000, 0xC0400000, 0x3F7F9D00], rep)" for rep :: "report_site reporting"
    by (simp add: ReadPos_def Let_def ps m example_floats z16_scale_eval inv65535_bits)
  have p1: "ReadPos site_key psp_constants example_memory (Goto example_bad_normal 1) rep
        = (Some [0x46FFFE00, 0xC7000000, 0x3D8B808C], rep)" for rep :: "report_site reporting"
    by (simp add: ReadPos_def Let_def ps m example_floats z16_scale_eval inv65535_bits)
  have n0: "ReadNrm site_key example_memory example_bad_normal rep
        = ([0, 0, 0], ERROR_LOG_REPORT_ONCE site_key fmtnrm 15 rep)" for rep :: "report_site reporting"
    by (simp add: ReadNrm_def Let_def fm ps)
  have n1: "ReadNrm site_key example_memory (Goto example_bad_normal 1) rep
        = ([0, 0, 0], ERROR_LOG_REPORT_ONCE site_key fmtnrm 15 rep)" for rep :: "report_site reporting"
    by (simp add: ReadNrm_def Let_def ps)
  have tail: "fst (calls site_key psp_constants example_memory ?cs (example_bad_normal, no_reports))
       = [Some [0x41200000, 0xC0400000, 0x3F7F9D00], Some [], Some [0, 0, 0],
          Some [0x46FFFE00, 0xC7000000, 0x3D8B808C]]"
    by (simp add: p0 p1 n0 n1)
  have em: "emitted (snd (snd (calls site_key psp_constants example_memory
            (CallReadNrm # ?cs) (example_bad_normal, no_reports)))) = [(fmtnrm, 15)]"
    by (simp add: p0 p1 n0 n1 ERROR_LOG_REPORT_ONCE_def no_reports_def site_key_def)
  have rn: "ReadNrm site_key example_memory example_bad_normal no_reports =
       ([0, 0, 0], \<lparr>reported = [fmtnrm], emitted = [(fmtnrm, 15)]\<rparr>)"
    by (simp add: n0 ERROR_LOG_REPORT_ONCE_def no_reports_def site_key_def)
  have full: "fst (calls site_key psp_constants example_memory (CallReadNrm # ?cs)
            (example_bad_normal, no_reports)) =
       Some [0, 0, 0] # fst (calls site_key psp_constants example_memory ?cs
            (example_bad_normal, no_reports))"
    using unsupported_format_zero_fill [of example_bad_normal site_key example_memory no_reports
        psp_constants fmtnrm 15 ?cs CallReadNrm] u
    by (simp only: zero_fill.simps simp_thms)
  show ?thesis
    using fm bad u rn full [unfolded tail] em by (simp only: simp_thms)
qed

text \<open>
  Claim C6. \<^verbatim>\<open>SetVertexType\<close> never writes past the five entries of \<^verbatim>\<open>steps_\<close>:
  it leaves \<open>0 \<le> numSteps_ \<le> 5\<close>, the pipeline is the planned one, and no two of its
  steps belong to the same attribute slot. The bound and the one-step-per-slot property
  are an invariant of the decoder: every operation (\<^verbatim>\<open>SetVertexType\<close> again, or the
  \<^verbatim>\<open>const\<close> \<^verbatim>\<open>DecodeVerts\<close>) preserves it.
\<close>

theorem set_vertex_type_steps:
  "(case SetVertexType layout d opts dec of
      None \<Rightarrow> False
    | Some dec' \<Rightarrow>
        0 \<le> vd_numSteps dec' \<and> vd_numSteps dec' \<le> 5
        \<and> pipeline dec' = map Some (Plan d opts)
        \<and> distinct (map step_slot (Plan d opts))
        \<and> steps_inv dec')
   \<and> (steps_inv dec \<longrightarrow>
        (case apply_op layout op dec of None \<Rightarrow> False | Some dec' \<Rightarrow> steps_inv dec'))"
proof -
  have set: "case SetVertexType layout d' opts' dec of
      None \<Rightarrow> False
    | Some dec' \<Rightarrow>
        0 \<le> vd_numSteps dec' \<and> vd_numSteps dec' \<le> 5
        \<and> pipeline dec' = map Some (Plan d' opts')
        \<and> distinct (map step_slot (Plan d' opts'))
        \<and> steps_inv dec'" for d' opts'
  proof -
    from SetVertexType_pipeline [of layout d' opts' dec]
    obtain dec' where r: "SetVertexType layout d' opts' dec = Some dec'"
      "vd_numSteps dec' = int (length (Plan d' opts'))"
      "pipeline dec' = map Some (Plan d' opts')"
      by blast
    show ?thesis
      using r Plan_length [of d' opts'] Plan_slots_distinct [of d' opts']
        steps_inv_of_plan [OF r(2,3)]
      by simp
  qed
  have op: "case apply_op layout op dec of None \<Rightarrow> False | Some dec' \<Rightarrow> steps_inv dec'"
    if "steps_inv dec"
  proof (cases op)
    case (OpSetVertexType d' opts')
    then show ?thesis using set [of d' opts'] by (auto split: option.splits)
  next
    case (OpDecodeVerts decoded' ptr')
    then show ?thesis using that by (simp add: DecodeVerts_steps_inv)
  qed
  show ?thesis using set [of d opts] op by blast
qed

theorem set_vertex_type_steps_witness:
  "map_option vd_numSteps
     (SetVertexType (\<lambda>d opts. example_layout) example_descriptor example_options fresh_decoder)
     = Some 5
   \<and> map_option (map (map_option step_slot) \<circ> pipeline)
     (SetVertexType (\<lambda>d opts. example_layout) example_descriptor example_options fresh_decoder)
     = Some [Some WeightsSlot, Some TexcoordSlot, Some ColorSlot, Some NormalSlot,
             Some PositionSlot]
   \<and> steps_inv fresh_decoder
   \<and> map_option steps_inv
       (apply_op (\<lambda>d opts. example_layout) (OpDecodeVerts 16 32) fresh_decoder) = Some True
   \<and> map_option steps_inv
       (apply_op (\<lambda>d opts. example_layout) (OpSetVertexType example_descriptor example_options)
          fresh_decoder) = Some True"
proof -
  have i: "steps_inv fresh_decoder"
    by (simp add: steps_inv_def pipeline_def fresh_decoder_def)
  have p: "map step_slot (Plan example_descriptor example_options)
      = [WeightsSlot, TexcoordSlot, ColorSlot, NormalSlot, PositionSlot]"
    by (simp add: Plan_def slot_step_defs example_descriptor_def example_options_def)
  have m: "(map (map_option step_slot) \<circ> pipeline) dec'
      = map Some (map step_slot (Plan example_descriptor example_options))"
    if "pipeline dec' = map Some (Plan example_descriptor example_options)" for dec'
    using that by simp
  have n: "vd_numSteps dec' = 5"
    if "pipeline dec' = map Some (Plan example_descriptor example_options)"
      "0 \<le> vd_numSteps dec'" for dec'
  proof -
    have "length (pipeline dec') = 5" using that(1) arg_cong [OF p, of length] by simp
    then show ?thesis using that(2) by (simp add: pipeline_def)
  qed
  show ?thesis
    using set_vertex_type_steps [where layout = "\<lambda>d opts. example_layout"
        and d = example_descriptor and opts = example_options and dec = fresh_decoder
        and op = "OpDecodeVerts 16 32"]
      set_vertex_type_steps [where layout = "\<lambda>d opts. example_layout"
        and d = example_descriptor and opts = example_options and dec = fresh_decoder
        and op = "OpSetVertexType example_descriptor example_options"]
      i m n p
    by (auto split: option.splits)
qed

end
